theory Spec2Isabelle
  imports Complex_Main
begin

section \<open>Arrays, errors and NumPy primitives\<close>

text \<open>
  The script \<^verbatim>\<open>relativistic_quantum_equation.py\<close> marches a scalar field on an
  \<open>N \<times> N \<times> N\<close> grid. A three-dimensional NumPy array is a list of planes, a plane a
  list of rows, a row a list of values; axis 0 is the outer list.

  Array elements and the parameters \<open>L\<close>, \<open>T\<close>, \<open>dt\<close> are \<open>real\<close>: finite numbers, and
  the element-wise arithmetic of the arrays is exact. Where the float64 of the script
  differs from that and a statement depends on it, the float64 result is either taken
  as given or computed with its rounding:
  \<^item> the quotient \<open>T / dt\<close> that decides \<open>steps\<close> is given as a \<open>pyfloat\<close>, finite,
    infinite or nan, and \<^verbatim>\<open>int\<close> raises on the last two;
  \<^item> \<^verbatim>\<open>np.sin(np.pi * v)\<close> is a parameter \<open>sin_pi\<close> of the initial condition, so nothing
    is assumed of its values (in float64 it is \<open>1.2246\<dots>e-16\<close> at \<open>v = 1\<close>, not 0);
  \<^item> \<open>laplacian_f64\<close> is the stencil with every operation rounded to binary64.
  NumPy divides an array by \<open>0.0\<close> without raising (it yields \<open>inf\<close>/\<open>nan\<close>), HOL gives
  \<open>x / 0 = 0\<close>; statements about values that went through the division by \<open>dx\<^sup>2\<close>
  therefore assume \<open>dx \<noteq> 0\<close>. Python's \<^verbatim>\<open>**\<close> raises \<^verbatim>\<open>OverflowError\<close> when the power
  of a float leaves the floats, which \<^verbatim>\<open>dx**2\<close> does from \<open>|dx| = 2^512\<close> on and
  \<^verbatim>\<open>dt**4\<close> from \<open>|dt| = 2^256\<close> on. Running out of memory is not modelled.
\<close>

type_synonym array1 = "real list"
type_synonym array2 = "real list list"
type_synonym array3 = "real list list list"

datatype error = ZeroDivisionError | ValueError | IndexError | OverflowError

definition bind_err :: "error + 'a \<Rightarrow> ('a \<Rightarrow> error + 'b) \<Rightarrow> error + 'b" where
  "bind_err m f = (case m of Inl e \<Rightarrow> Inl e | Inr v \<Rightarrow> f v)"

text \<open>The three axes the script passes to \<^verbatim>\<open>np.roll\<close> (\<^verbatim>\<open>axis=0\<close>, \<^verbatim>\<open>1\<close>, \<^verbatim>\<open>2\<close>).\<close>

datatype axis = Axis0 | Axis1 | Axis2

text \<open>
  \<^verbatim>\<open>np.roll\<close> along one axis of length \<open>n\<close>: the element at index \<open>i\<close> of the result
  is the element at index \<open>(i - shift) mod n\<close> of the argument. \<open>rotate m\<close> moves
  the first \<open>m\<close> elements to the end, so the roll by \<open>shift\<close> is the rotation by
  \<open>(- shift) mod n\<close>.
\<close>

definition roll1 :: "'a list \<Rightarrow> int \<Rightarrow> 'a list" where
  "roll1 xs shift =
     (if xs = [] then [] else rotate (nat ((- shift) mod int (length xs))) xs)"

fun roll :: "array3 \<Rightarrow> int \<Rightarrow> axis \<Rightarrow> array3" where
  "roll a shift Axis0 = roll1 a shift"
| "roll a shift Axis1 = map (\<lambda>p. roll1 p shift) a"
| "roll a shift Axis2 = map (map (\<lambda>r. roll1 r shift)) a"

text \<open>Element-wise arithmetic of arrays of one shape, and of a scalar with an array.\<close>

definition add3 :: "array3 \<Rightarrow> array3 \<Rightarrow> array3" where
  "add3 a b = map2 (map2 (map2 (+))) a b"

definition sub3 :: "array3 \<Rightarrow> array3 \<Rightarrow> array3" where
  "sub3 a b = map2 (map2 (map2 (-))) a b"

definition mul3 :: "array3 \<Rightarrow> array3 \<Rightarrow> array3" where
  "mul3 a b = map2 (map2 (map2 (*))) a b"

definition smul3 :: "real \<Rightarrow> array3 \<Rightarrow> array3" where
  "smul3 c a = map (map (map (\<lambda>v. c * v))) a"

definition sdiv3 :: "array3 \<Rightarrow> real \<Rightarrow> array3" where
  "sdiv3 a c = map (map (map (\<lambda>v. v / c))) a"

definition zeros_like :: "array3 \<Rightarrow> array3" where
  "zeros_like a = map (map (map (\<lambda>v. 0))) a"

text \<open>
  The sizes of the three axes. A nested list stores no shape; the arrays of the script
  are cubes, whose planes and rows all have the length of the first one.
\<close>

definition dim0 :: "array3 \<Rightarrow> nat" where
  "dim0 a = length a"

definition dim1 :: "array3 \<Rightarrow> nat" where
  "dim1 a = (case a of [] \<Rightarrow> 0 | p # _ \<Rightarrow> length p)"

definition dim2 :: "array3 \<Rightarrow> nat" where
  "dim2 a = (case a of [] \<Rightarrow> 0 | p # _ \<Rightarrow> (case p of [] \<Rightarrow> 0 | r # _ \<Rightarrow> length r))"

text \<open>
  An integer index into an axis of size \<open>n\<close>: a negative index counts from the end, an
  index outside \<open>[-n, n)\<close> raises \<^verbatim>\<open>IndexError\<close>.
\<close>

definition norm_index :: "nat \<Rightarrow> int \<Rightarrow> error + nat" where
  "norm_index n i =
     (let j = (if i < 0 then int n + i else i)
      in if 0 \<le> j \<and> j < int n then Inr (nat j) else Inl IndexError)"

text \<open>
  The slice assignments \<^verbatim>\<open>a[i, :, :] = v\<close>, \<^verbatim>\<open>a[:, i, :] = v\<close> and
  \<^verbatim>\<open>a[:, :, i] = v\<close>.
\<close>

definition assign0 :: "array3 \<Rightarrow> int \<Rightarrow> real \<Rightarrow> error + array3" where
  "assign0 a i v =
     bind_err (norm_index (dim0 a) i)
       (\<lambda>j. Inr (a[j := map (map (\<lambda>_. v)) (a ! j)]))"

definition assign1 :: "array3 \<Rightarrow> int \<Rightarrow> real \<Rightarrow> error + array3" where
  "assign1 a i v =
     bind_err (norm_index (dim1 a) i)
       (\<lambda>j. Inr (map (\<lambda>p. p[j := map (\<lambda>_. v) (p ! j)]) a))"

definition assign2 :: "array3 \<Rightarrow> int \<Rightarrow> real \<Rightarrow> error + array3" where
  "assign2 a i v =
     bind_err (norm_index (dim2 a) i)
       (\<lambda>j. Inr (map (map (\<lambda>r. r[j := v])) a))"

text \<open>The slice \<^verbatim>\<open>a[:, :, k]\<close> read out as a two-dimensional array.\<close>

definition slice2 :: "array3 \<Rightarrow> nat \<Rightarrow> array2" where
  "slice2 a k = map (map (\<lambda>r. r ! k)) a"

text \<open>
  \<^verbatim>\<open>np.linspace(start, stop, num)\<close>: \<open>num\<close> samples \<open>start + i * step\<close> with
  \<open>step = (stop - start) / (num - 1)\<close>, the last one set to \<open>stop\<close>; one sample is
  \<open>start\<close> alone, a negative \<open>num\<close> raises \<^verbatim>\<open>ValueError\<close>.
\<close>

definition linspace :: "real \<Rightarrow> real \<Rightarrow> int \<Rightarrow> error + array1" where
  "linspace start stop num =
     (if num < 0 then Inl ValueError
      else if num = 1 then Inr [start]
      else let step = (stop - start) / real_of_int (num - 1);
               ys = map (\<lambda>i. start + real i * step) [0..<nat num]
           in Inr (ys[nat num - 1 := stop]))"

text \<open>
  \<^verbatim>\<open>np.meshgrid(x, y, z, indexing='ij')\<close>: \<open>X[i][j][k] = x[i]\<close>,
  \<open>Y[i][j][k] = y[j]\<close>, \<open>Z[i][j][k] = z[k]\<close>.
\<close>

definition meshgrid :: "array1 \<Rightarrow> array1 \<Rightarrow> array1 \<Rightarrow> array3 \<times> array3 \<times> array3" where
  "meshgrid x y z =
     (map (\<lambda>xi. map (\<lambda>yj. map (\<lambda>zk. xi) z) y) x,
      map (\<lambda>xi. map (\<lambda>yj. map (\<lambda>zk. yj) z) y) x,
      map (\<lambda>xi. map (\<lambda>yj. map (\<lambda>zk. zk) z) y) x)"

text \<open>A function applied to every element, as \<^verbatim>\<open>np.sin(np.pi * X)\<close> is.\<close>

definition map3 :: "(real \<Rightarrow> real) \<Rightarrow> array3 \<Rightarrow> array3" where
  "map3 f a = map (map (map f)) a"

section \<open>The stencil operators\<close>

text \<open>
  \<^verbatim>\<open>x ** n\<close> of a Python float and a positive integer: the power, or
  \<^verbatim>\<open>OverflowError\<close> when it leaves the floats. For a float64 \<open>x\<close> and \<open>n = 2\<close> or \<open>4\<close> that
  is when \<open>|x| ^ n \<ge> 2 ^ 1024\<close>: no float64 has a square or a fourth power between
  the largest float and \<open>2 ^ 1024\<close>. A power that underflows is \<open>0.0\<close>, no error.
\<close>

definition py_pow :: "real \<Rightarrow> nat \<Rightarrow> error + real" where
  "py_pow x n = (if \<bar>x\<bar> ^ n < 2 ^ 1024 then Inr (x ^ n) else Inl OverflowError)"

text \<open>
  \<^verbatim>\<open>laplacian(u)\<close> and \<^verbatim>\<open>biharmonic(u)\<close>; the module-level spacing \<open>dx\<close> is a
  parameter. The array operations raise nothing; \<^verbatim>\<open>dx**2\<close> can.
\<close>

definition laplacian :: "real \<Rightarrow> array3 \<Rightarrow> error + array3" where
  "laplacian dx u =
     bind_err (py_pow dx 2) (\<lambda>dx2.
       Inr (sdiv3
         (sub3
            (add3 (add3 (add3 (add3 (add3 (roll u 1 Axis0) (roll u (- 1) Axis0))
               (roll u 1 Axis1)) (roll u (- 1) Axis1))
               (roll u 1 Axis2)) (roll u (- 1) Axis2))
            (smul3 6 u))
         dx2))"

definition biharmonic :: "real \<Rightarrow> array3 \<Rightarrow> error + array3" where
  "biharmonic dx u = bind_err (laplacian dx u) (\<lambda>l. laplacian dx l)"

section \<open>Binary64 rounding\<close>

text \<open>
  The float64 values of \<^verbatim>\<open>np.sin(np.pi * v)\<close> at the grid points of \<open>N = 3\<close> with
  \<open>L = 1\<close> and \<open>L = -1\<close>, the only points the statements below use: \<open>0\<close> at \<open>0\<close>,
  \<open>\<plusminus>1\<close> at \<open>\<plusminus>0.5\<close>, and \<^verbatim>\<open>4967757600021511 / 2**105\<close>, which prints as
  \<^verbatim>\<open>1.2246467991473532e-16\<close>, at \<open>1\<close>, its negative at \<open>-1\<close>. Elsewhere the table holds 0.
\<close>

definition sin_pi_grid3 :: "real \<Rightarrow> real" where
  "sin_pi_grid3 v =
     (if v = 1 / 2 then 1
      else if v = - 1 / 2 then - 1
      else if v = 1 then 4967757600021511 / 2 ^ 105
      else if v = - 1 then - 4967757600021511 / 2 ^ 105
      else 0)"

text \<open>The nearest integer, a tie going to the even one.\<close>

definition round_half_even :: "real \<Rightarrow> int" where
  "round_half_even x =
     (let f = \<lfloor>x\<rfloor>
      in if x - of_int f < 1 / 2 then f
         else if 1 / 2 < x - of_int f then f + 1
         else if even f then f else f + 1)"

text \<open>
  The binary64 number nearest to \<open>x\<close>, ties to even: for \<open>2 ^ k \<le> |x| < 2 ^ (k + 1)\<close>
  the multiple of \<open>2 ^ (k - 52)\<close> nearest to \<open>x\<close>. This is the rounding of IEEE 754 while
  \<open>|x|\<close> stays between the smallest normal number and the overflow threshold; a
  float64 operation returns the rounding of its exact result.
\<close>

definition fl :: "real \<Rightarrow> real" where
  "fl x =
     (if x = 0 then 0
      else let e = \<lfloor>log 2 \<bar>x\<bar>\<rfloor> - 52
           in of_int (round_half_even (x / 2 powi e)) * 2 powi e)"

definition add3_f64 :: "array3 \<Rightarrow> array3 \<Rightarrow> array3" where
  "add3_f64 a b = map2 (map2 (map2 (\<lambda>v w. fl (v + w)))) a b"

definition sub3_f64 :: "array3 \<Rightarrow> array3 \<Rightarrow> array3" where
  "sub3_f64 a b = map2 (map2 (map2 (\<lambda>v w. fl (v - w)))) a b"

definition smul3_f64 :: "real \<Rightarrow> array3 \<Rightarrow> array3" where
  "smul3_f64 c a = map (map (map (\<lambda>v. fl (c * v)))) a"

definition sdiv3_f64 :: "array3 \<Rightarrow> real \<Rightarrow> array3" where
  "sdiv3_f64 a c = map (map (map (\<lambda>v. fl (v / c)))) a"

text \<open>\<^verbatim>\<open>laplacian(u)\<close> as float64 computes it: the same expression, every operation rounded.\<close>

definition laplacian_f64 :: "real \<Rightarrow> array3 \<Rightarrow> array3" where
  "laplacian_f64 dx u =
     sdiv3_f64
       (sub3_f64
          (add3_f64 (add3_f64 (add3_f64 (add3_f64 (add3_f64 (roll u 1 Axis0) (roll u (- 1) Axis0))
             (roll u 1 Axis1)) (roll u (- 1) Axis1))
             (roll u 1 Axis2)) (roll u (- 1) Axis2))
          (smul3_f64 6 u))
       (fl (dx * dx))"

section \<open>The time-stepping loop\<close>

text \<open>
  The right-hand side of the assignment to \<^verbatim>\<open>u_next\<close>,
  \<^verbatim>\<open>2 * u - u_prev + dt**2 * lap_u - dt**4 * biharm_u\<close>, from the values \<open>dt2\<close> and
  \<open>dt4\<close> of the two powers.
\<close>

definition candidate ::
  "real \<Rightarrow> real \<Rightarrow> array3 \<Rightarrow> array3 \<Rightarrow> array3 \<Rightarrow> array3 \<Rightarrow> array3" where
  "candidate dt2 dt4 u u_prev lap_u biharm_u =
     sub3 (add3 (sub3 (smul3 2 u) u_prev) (smul3 dt2 lap_u)) (smul3 dt4 biharm_u)"

text \<open>
  The boundary conditions, six slice assignments in the order of the script (a chained
  assignment stores into its targets from left to right).
\<close>

definition apply_boundary :: "array3 \<Rightarrow> error + array3" where
  "apply_boundary a =
     bind_err (assign0 a 0 0) (\<lambda>a.
     bind_err (assign0 a (- 1) 0) (\<lambda>a.
     bind_err (assign1 a 0 0) (\<lambda>a.
     bind_err (assign1 a (- 1) 0) (\<lambda>a.
     bind_err (assign2 a 0 0) (\<lambda>a.
     assign2 a (- 1) 0)))))"

text \<open>
  The variables of the script name array objects, and a basic slice of an array is a view
  of its buffer. The state therefore keeps a store of buffers (\<open>heap\<close>, addressed by
  position, a new buffer is appended) and the variables hold addresses. A frame is the
  pair of the buffer it looks into and the index along axis 2.
\<close>

record state =
  heap :: "array3 list"
  u :: nat
  u_t :: nat
  u_tt :: nat
  u_prev :: nat
  u_next :: nat
  frames :: "(nat \<times> nat) list"

definition read_frame :: "array3 list \<Rightarrow> nat \<times> nat \<Rightarrow> array2" where
  "read_frame h fr = slice2 (h ! fst fr) (snd fr)"

text \<open>
  One iteration of the loop. \<^verbatim>\<open>laplacian\<close>, \<^verbatim>\<open>biharmonic\<close> and the two powers of
  \<open>dt\<close> are evaluated in this order and each can raise. The arithmetic expression
  allocates the buffer of \<^verbatim>\<open>u_next\<close>, the boundary assignments write into that buffer,
  each \<^verbatim>\<open>np.copy\<close> allocates a buffer, and \<^verbatim>\<open>u[:, :, mid_idx]\<close> is a view of the buffer
  of \<^verbatim>\<open>u\<close>.
\<close>

definition loop_body :: "int \<Rightarrow> real \<Rightarrow> real \<Rightarrow> state \<Rightarrow> error + state" where
  "loop_body N dx dt s =
     bind_err (laplacian dx (heap s ! u s)) (\<lambda>lap_u.
     bind_err (biharmonic dx (heap s ! u s)) (\<lambda>biharm_u.
     bind_err (py_pow dt 2) (\<lambda>dt2.
     bind_err (py_pow dt 4) (\<lambda>dt4.
     let nxt = length (heap s);
         h1 = heap s @ [candidate dt2 dt4 (heap s ! u s) (heap s ! u_prev s) lap_u biharm_u]
     in bind_err (apply_boundary (h1 ! nxt)) (\<lambda>b.
        let h2 = h1[nxt := b];
            prv = length h2;
            h3 = h2 @ [h2 ! u s];
            cur = length h3;
            h4 = h3 @ [h3 ! nxt];
            mid_idx = N div 2
        in bind_err (norm_index (dim2 (h4 ! cur)) mid_idx) (\<lambda>k.
           Inr (s\<lparr>heap := h4, u := cur, u_prev := prv, u_next := nxt,
                   frames := frames s @ [(cur, k)]\<rparr>)))))))"

text \<open>\<^verbatim>\<open>for step in range(steps)\<close>: the body, \<open>n\<close> times, stopping at the first error.\<close>

fun loop :: "nat \<Rightarrow> int \<Rightarrow> real \<Rightarrow> real \<Rightarrow> state \<Rightarrow> error + state" where
  "loop 0 N dx dt s = Inr s"
| "loop (Suc n) N dx dt s = bind_err (loop_body N dx dt s) (loop n N dx dt)"

section \<open>The script up to the end of the loop\<close>

text \<open>A float64 value: a finite number, an infinity of either sign, or a nan.\<close>

datatype pyfloat = Finite real | Infinite | NaN

text \<open>
  \<^verbatim>\<open>int(q)\<close> of a float truncates towards zero; it raises \<^verbatim>\<open>OverflowError\<close> on an
  infinity and \<^verbatim>\<open>ValueError\<close> on a nan.
\<close>

definition py_int :: "pyfloat \<Rightarrow> error + int" where
  "py_int q =
     (case q of
        Finite r \<Rightarrow> Inr (if 0 \<le> r then \<lfloor>r\<rfloor> else \<lceil>r\<rceil>)
      | Infinite \<Rightarrow> Inl OverflowError
      | NaN \<Rightarrow> Inl ValueError)"

text \<open>
  \<^verbatim>\<open>a / b\<close> of two Python floats raises on a zero divisor. Otherwise its value is the
  float64 quotient, rounded and possibly infinite, which the model does not compute:
  \<open>q\<close> is that quotient, given.
\<close>

definition py_truediv :: "pyfloat \<Rightarrow> real \<Rightarrow> real \<Rightarrow> error + pyfloat" where
  "py_truediv q a b = (if b = 0 then Inl ZeroDivisionError else Inr q)"

text \<open>
  The conversion of a Python integer to a float, which \<^verbatim>\<open>L / (N - 1)\<close> applies to its
  divisor first: \<^verbatim>\<open>OverflowError\<close> from \<^verbatim>\<open>2**1024 - 2**970\<close> on, the integers that
  round to \<^verbatim>\<open>2**1024\<close>.
\<close>

definition py_float :: "int \<Rightarrow> error + real" where
  "py_float n =
     (if \<bar>n\<bar> < 2 ^ 1024 - 2 ^ 970 then Inr (real_of_int n) else Inl OverflowError)"

text \<open>
  The quotient of the spacing, \<^verbatim>\<open>L / (N - 1)\<close>: it raises on a zero divisor; a finite
  \<open>L\<close> over a non-zero integer is finite, and its value is taken exact.
\<close>

definition py_div :: "real \<Rightarrow> real \<Rightarrow> error + real" where
  "py_div a b = (if b = 0 then Inl ZeroDivisionError else Inr (a / b))"

text \<open>
  \<^verbatim>\<open>np.sin(np.pi * X) * np.sin(np.pi * Y) * np.sin(np.pi * Z)\<close>; \<open>sin_pi v\<close> stands for
  \<^verbatim>\<open>np.sin(np.pi * v)\<close>.
\<close>

definition initial_condition ::
  "(real \<Rightarrow> real) \<Rightarrow> array1 \<Rightarrow> array1 \<Rightarrow> array1 \<Rightarrow> array3" where
  "initial_condition sin_pi x y z =
     (case meshgrid x y z of (X, Y, Z) \<Rightarrow>
        mul3 (mul3 (map3 sin_pi X) (map3 sin_pi Y)) (map3 sin_pi Z))"

definition init_state :: "array3 \<Rightarrow> state" where
  "init_state u0 =
     \<lparr>heap = [u0, zeros_like u0, zeros_like u0, u0, u0],
      u = 0, u_t = 1, u_tt = 2, u_prev = 3, u_next = 4, frames = []\<rparr>"

text \<open>
  The module from its parameters to the end of the time-stepping loop, in the order of
  the statements: \<open>steps\<close>, \<open>dx\<close>, the three coordinate arrays, the fields, the loop.
  \<open>alpha\<close> is assigned and never read. \<open>sin_pi\<close> is \<^verbatim>\<open>np.sin(np.pi * v)\<close> and \<open>q\<close>
  the float64 quotient \<open>T / dt\<close>. \<^verbatim>\<open>range(steps)\<close> is empty for \<open>steps \<le> 0\<close>.
\<close>

definition run ::
  "(real \<Rightarrow> real) \<Rightarrow> pyfloat \<Rightarrow> real \<Rightarrow> int \<Rightarrow> real \<Rightarrow> real \<Rightarrow> real \<Rightarrow> error + state"
  where
  "run sin_pi q L N T dt alpha =
     bind_err (py_truediv q T dt) (\<lambda>v.
     bind_err (py_int v) (\<lambda>steps.
     bind_err (py_float (N - 1)) (\<lambda>d.
     bind_err (py_div L d) (\<lambda>dx.
     bind_err (linspace 0 L N) (\<lambda>x.
     bind_err (linspace 0 L N) (\<lambda>y.
     bind_err (linspace 0 L N) (\<lambda>z.
     loop (nat steps) N dx dt (init_state (initial_condition sin_pi x y z)))))))))"

section \<open>Shapes and indices\<close>

definition shape3 :: "nat \<Rightarrow> array3 \<Rightarrow> bool" where
  "shape3 n a \<longleftrightarrow>
     length a = n \<and> (\<forall>p \<in> set a. length p = n \<and> (\<forall>r \<in> set p. length r = n))"

definition at3 :: "array3 \<Rightarrow> nat \<Rightarrow> nat \<Rightarrow> nat \<Rightarrow> real" where
  "at3 a i j k = a ! i ! j ! k"

text \<open>The neighbour index \<open>i + d\<close> wrapped into \<open>[0, n)\<close>.\<close>

definition wrap :: "nat \<Rightarrow> nat \<Rightarrow> int \<Rightarrow> nat" where
  "wrap n i d = nat ((int i + d) mod int n)"

text \<open>
  The arrays \<^verbatim>\<open>laplacian(u)\<close> and \<^verbatim>\<open>biharmonic(u)\<close> return and the array assigned to
  \<^verbatim>\<open>u_next\<close> when no power overflows, as functions of \<open>dx\<close> and \<open>dt\<close>.
\<close>

definition lap_val :: "real \<Rightarrow> array3 \<Rightarrow> array3" where
  "lap_val dx a =
     sdiv3
       (sub3
          (add3 (add3 (add3 (add3 (add3 (roll a 1 Axis0) (roll a (- 1) Axis0))
             (roll a 1 Axis1)) (roll a (- 1) Axis1))
             (roll a 1 Axis2)) (roll a (- 1) Axis2))
          (smul3 6 a))
       (dx ^ 2)"

definition bih_val :: "real \<Rightarrow> array3 \<Rightarrow> array3" where
  "bih_val dx a = lap_val dx (lap_val dx a)"

definition cand_val :: "real \<Rightarrow> real \<Rightarrow> array3 \<Rightarrow> array3 \<Rightarrow> array3" where
  "cand_val dx dt a p =
     candidate (dt ^ 2) (dt ^ 4) a p (lap_val dx a) (bih_val dx a)"

text \<open>The spacings and step sizes whose powers \<^verbatim>\<open>dx**2\<close>, \<^verbatim>\<open>dt**2\<close>, \<^verbatim>\<open>dt**4\<close> are floats.\<close>

definition powers_fit :: "real \<Rightarrow> real \<Rightarrow> bool" where
  "powers_fit dx dt \<longleftrightarrow> \<bar>dx\<bar> < 2 ^ 512 \<and> \<bar>dt\<bar> < 2 ^ 256"

text \<open>The sum of all entries of an array (\<^verbatim>\<open>np.sum\<close>).\<close>

definition sum3 :: "array3 \<Rightarrow> real" where
  "sum3 a = sum_list (map (\<lambda>p. sum_list (map sum_list p)) a)"

text \<open>
  The stencil as the specification words it: at every grid point the six axis neighbours,
  their indices wrapped modulo \<open>n\<close>, minus six times the centre, over \<open>dx\<^sup>2\<close>.
\<close>

definition laplacian_spec :: "nat \<Rightarrow> real \<Rightarrow> array3 \<Rightarrow> array3" where
  "laplacian_spec n dx f =
     map (\<lambda>i. map (\<lambda>j. map (\<lambda>k.
       (at3 f (wrap n i (- 1)) j k + at3 f (wrap n i 1) j k +
        at3 f i (wrap n j (- 1)) k + at3 f i (wrap n j 1) k +
        at3 f i j (wrap n k (- 1)) + at3 f i j (wrap n k 1) - 6 * at3 f i j k) / dx ^ 2)
       [0..<n]) [0..<n]) [0..<n]"

definition on_face :: "nat \<Rightarrow> nat \<Rightarrow> nat \<Rightarrow> nat \<Rightarrow> bool" where
  "on_face n i j k \<longleftrightarrow>
     i = 0 \<or> i = n - 1 \<or> j = 0 \<or> j = n - 1 \<or> k = 0 \<or> k = n - 1"

definition zero_faces :: "nat \<Rightarrow> array3 \<Rightarrow> bool" where
  "zero_faces n a \<longleftrightarrow>
     (\<forall>i \<in> {0..<n}. \<forall>j \<in> {0..<n}. \<forall>k \<in> {0..<n}.
        on_face n i j k \<longrightarrow> at3 a i j k = 0)"

text \<open>
  The states the loop runs in: \<^verbatim>\<open>u\<close> and \<^verbatim>\<open>u_prev\<close> name allocated buffers that
  hold \<open>n \<times> n \<times> n\<close> arrays, and every frame looks into an allocated buffer.
\<close>

definition wf_state :: "nat \<Rightarrow> state \<Rightarrow> bool" where
  "wf_state n s \<longleftrightarrow>
     u s < length (heap s) \<and> u_prev s < length (heap s) \<and>
     shape3 n (heap s ! u s) \<and> shape3 n (heap s ! u_prev s) \<and>
     (\<forall>fr \<in> set (frames s). fst fr < length (heap s))"

section \<open>Shapes and element access\<close>

lemma shape3_iff:
  "shape3 n a \<longleftrightarrow>
     length a = n \<and> (\<forall>i<n. length (a ! i) = n \<and> (\<forall>j<n. length (a ! i ! j) = n))"
  unfolding shape3_def by (auto simp: all_set_conv_all_nth)

lemma shape3_length:
  "shape3 n a \<Longrightarrow> length a = n"
  "shape3 n a \<Longrightarrow> i < n \<Longrightarrow> length (a ! i) = n"
  "shape3 n a \<Longrightarrow> i < n \<Longrightarrow> j < n \<Longrightarrow> length (a ! i ! j) = n"
  by (auto simp: shape3_iff)

lemma array3_eqI:
  assumes a: "shape3 n a" and b: "shape3 n b"
    and eq: "\<And>i j k. i < n \<Longrightarrow> j < n \<Longrightarrow> k < n \<Longrightarrow> at3 a i j k = at3 b i j k"
  shows "a = b"
proof (rule nth_equalityI)
  show "length a = length b" using a b by (simp add: shape3_length)
next
  fix i assume "i < length a"
  then have i: "i < n" using a by (simp add: shape3_length)
  show "a ! i = b ! i"
  proof (rule nth_equalityI)
    show "length (a ! i) = length (b ! i)" using a b i by (simp add: shape3_length)
  next
    fix j assume "j < length (a ! i)"
    then have j: "j < n" using a i by (simp add: shape3_length)
    show "a ! i ! j = b ! i ! j"
    proof (rule nth_equalityI)
      show "length (a ! i ! j) = length (b ! i ! j)"
        using a b i j by (simp add: shape3_length)
    next
      fix k assume "k < length (a ! i ! j)"
      then have "k < n" using a i j by (simp add: shape3_length)
      then show "a ! i ! j ! k = b ! i ! j ! k"
        using eq [OF i j] by (simp add: at3_def)
    qed
  qed
qed

lemma shape3_map3:
  "shape3 n a \<Longrightarrow> shape3 n (map (map (map f)) a)"
  by (simp add: shape3_iff)

lemma at3_map3:
  "shape3 n a \<Longrightarrow> i < n \<Longrightarrow> j < n \<Longrightarrow> k < n \<Longrightarrow>
     at3 (map (map (map f)) a) i j k = f (at3 a i j k)"
  by (simp add: shape3_iff at3_def)

lemma shape3_zip3:
  "shape3 n a \<Longrightarrow> shape3 n b \<Longrightarrow> shape3 n (map2 (map2 (map2 f)) a b)"
  by (simp add: shape3_iff)

lemma at3_zip3:
  "shape3 n a \<Longrightarrow> shape3 n b \<Longrightarrow> i < n \<Longrightarrow> j < n \<Longrightarrow> k < n \<Longrightarrow>
     at3 (map2 (map2 (map2 f)) a b) i j k = f (at3 a i j k) (at3 b i j k)"
  by (simp add: shape3_iff at3_def)

lemmas shape3_arith =
  shape3_zip3 [of _ _ _ "(+)", folded add3_def]
  shape3_zip3 [of _ _ _ "(-)", folded sub3_def]
  shape3_zip3 [of _ _ _ "(*)", folded mul3_def]
  shape3_map3 [of _ _ "\<lambda>v. c * v", folded smul3_def]
  shape3_map3 [of _ _ "\<lambda>v. v / c", folded sdiv3_def]
  shape3_map3 [of _ _ "\<lambda>v. 0", folded zeros_like_def]
  for c

lemmas at3_arith =
  at3_zip3 [of _ _ _ _ _ _ "(+)", folded add3_def]
  at3_zip3 [of _ _ _ _ _ _ "(-)", folded sub3_def]
  at3_zip3 [of _ _ _ _ _ _ "(*)", folded mul3_def]
  at3_map3 [of _ _ _ _ _ "\<lambda>v. c * v", folded smul3_def]
  at3_map3 [of _ _ _ _ _ "\<lambda>v. v / c", folded sdiv3_def]
  for c

section \<open>Rolling\<close>

lemma wrap_less: "0 < n \<Longrightarrow> wrap n i d < n"
  unfolding wrap_def by (simp add: nat_less_iff)

lemma roll1_length: "length (roll1 xs s) = length xs"
  by (simp add: roll1_def)

lemma roll1_nth:
  assumes "i < length xs"
  shows "roll1 xs s ! i = xs ! wrap (length xs) i (- s)"
proof -
  let ?n = "length xs"
  have ne: "xs \<noteq> []" using assms by (cases xs) auto
  have npos: "0 < int ?n" using ne by simp
  let ?m = "nat ((- s) mod int ?n)"
  have m: "int ?m = (- s) mod int ?n" using npos by simp
  have "int ((?m + i) mod ?n) = (int ?m + int i) mod int ?n"
    by (simp add: zmod_int)
  also have "\<dots> = ((- s) mod int ?n + int i) mod int ?n" using m by simp
  also have "\<dots> = (int i + (- s)) mod int ?n"
    by (metis mod_add_left_eq add.commute)
  finally have "(?m + i) mod ?n = wrap ?n i (- s)"
    unfolding wrap_def by (metis nat_int)
  then show ?thesis using assms ne by (simp add: roll1_def nth_rotate)
qed

lemma shape3_roll: "shape3 n a \<Longrightarrow> shape3 n (roll a s ax)"
proof (cases ax)
  case Axis0
  assume a: "shape3 n a"
  show ?thesis
  proof (cases "n = 0")
    case True
    then show ?thesis using a Axis0 by (simp add: shape3_iff roll1_def)
  next
    case False
    then have "\<And>i. i < n \<Longrightarrow> wrap n i (- s) < n" by (simp add: wrap_less)
    then show ?thesis using a Axis0
      by (simp add: shape3_iff roll1_length roll1_nth)
  qed
next
  case Axis1
  assume a: "shape3 n a"
  show ?thesis
  proof (cases "n = 0")
    case True
    then show ?thesis using a Axis1 by (simp add: shape3_iff)
  next
    case False
    then have "\<And>i. i < n \<Longrightarrow> wrap n i (- s) < n" by (simp add: wrap_less)
    then show ?thesis using a Axis1
      by (simp add: shape3_iff roll1_length roll1_nth)
  qed
next
  case Axis2
  assume a: "shape3 n a"
  then show ?thesis using Axis2 by (simp add: shape3_iff roll1_length)
qed

lemma at3_roll:
  assumes "shape3 n a" "i < n" "j < n" "k < n"
  shows "at3 (roll a s Axis0) i j k = at3 a (wrap n i (- s)) j k"
    and "at3 (roll a s Axis1) i j k = at3 a i (wrap n j (- s)) k"
    and "at3 (roll a s Axis2) i j k = at3 a i j (wrap n k (- s))"
  using assms by (simp_all add: shape3_iff at3_def roll1_nth)

section \<open>The stencil, index by index\<close>

lemma shape3_laplacian: "shape3 n a \<Longrightarrow> shape3 n (lap_val dx a)"
  unfolding lap_val_def by (intro shape3_arith shape3_roll)

lemma shape3_biharmonic: "shape3 n a \<Longrightarrow> shape3 n (bih_val dx a)"
  unfolding bih_val_def by (intro shape3_laplacian)

lemma at3_laplacian:
  assumes a: "shape3 n a" and i: "i < n" and j: "j < n" and k: "k < n"
  shows "at3 (lap_val dx a) i j k =
    (at3 a (wrap n i (- 1)) j k + at3 a (wrap n i 1) j k +
     at3 a i (wrap n j (- 1)) k + at3 a i (wrap n j 1) k +
     at3 a i j (wrap n k (- 1)) + at3 a i j (wrap n k 1) - 6 * at3 a i j k) / dx\<^sup>2"
  unfolding lap_val_def
  by (simp add: at3_arith [where n = n] at3_roll [where n = n] shape3_arith shape3_roll a i j k del: roll.simps)



section \<open>Sums\<close>

lemma sum_list_map_roll1:
  "sum_list (map f (roll1 xs s)) = sum_list (map f xs)" for f :: "'a \<Rightarrow> real"
proof (cases "xs = []")
  case True
  then show ?thesis by (simp add: roll1_def)
next
  case False
  let ?m = "nat ((- s) mod int (length xs)) mod length xs"
  have "sum_list (map f (roll1 xs s)) =
        sum_list (map f (drop ?m xs)) + sum_list (map f (take ?m xs))"
    using False by (simp add: roll1_def rotate_drop_take)
  also have "\<dots> = sum_list (map f (take ?m xs @ drop ?m xs))"
    by (simp del: append_take_drop_id)
  finally show ?thesis by simp
qed

lemma sum_list_roll1: "sum_list (roll1 xs s) = sum_list xs" for xs :: "real list"
  using sum_list_map_roll1 [of "\<lambda>v. v" xs s] by simp

lemma sum3_roll: "sum3 (roll a s ax) = sum3 a"
proof (cases ax)
  case Axis0
  then show ?thesis by (simp add: sum3_def sum_list_map_roll1)
next
  case Axis1
  then show ?thesis by (simp add: sum3_def sum_list_map_roll1 comp_def)
next
  case Axis2
  then show ?thesis by (simp add: sum3_def sum_list_roll1 comp_def)
qed

lemma sum_list_map2:
  assumes "length xs = length ys"
    and "\<And>i. i < length xs \<Longrightarrow> g (f (xs ! i) (ys ! i)) = c (g1 (xs ! i)) (g2 (ys ! i))"
    and "c 0 0 = (0::real)"
    and "\<And>p q r t. c (p + q) (r + t) = c p r + c q t"
  shows "sum_list (map g (map2 f xs ys)) = c (sum_list (map g1 xs)) (sum_list (map g2 ys))"
  using assms(1,2)
proof (induction xs ys rule: list_induct2)
  case Nil
  then show ?case by (simp add: assms(3))
next
  case (Cons x xs y ys)
  have hd: "g (f x y) = c (g1 x) (g2 y)" using Cons.prems [of 0] by simp
  have tl: "\<And>i. i < length xs \<Longrightarrow> g (f (xs ! i) (ys ! i)) = c (g1 (xs ! i)) (g2 (ys ! i))"
    using Cons.prems [of "Suc _"] by simp
  show ?case using Cons.IH [OF tl] hd by (simp add: assms(4))
qed

lemma sum3_zip3:
  assumes a: "shape3 n a" and b: "shape3 n b"
    and c0: "c 0 0 = (0::real)"
    and cadd: "\<And>p q r t. c (p + q) (r + t) = c p r + c q t"
  shows "sum3 (map2 (map2 (map2 c)) a b) = c (sum3 a) (sum3 b)"
proof -
  have rows: "sum_list (map2 c r r') = c (sum_list r) (sum_list r')"
    if "length r = length r'" for r r'
    using sum_list_map2 [of r r' "\<lambda>v. v" c c "\<lambda>v. v" "\<lambda>v. v", OF that _ c0 cadd]
    by simp
  have planes: "sum_list (map sum_list (map2 (map2 c) p p')) =
                c (sum_list (map sum_list p)) (sum_list (map sum_list p'))"
    if "length p = length p'" and "\<And>j. j < length p \<Longrightarrow> length (p ! j) = length (p' ! j)"
    for p p'
    by (rule sum_list_map2 [where c = c and ?g1.0 = sum_list and ?g2.0 = sum_list, OF that(1) _ c0 cadd]) (simp add: rows that(2))
  have "sum_list (map (\<lambda>p. sum_list (map sum_list p)) (map2 (map2 (map2 c)) a b)) =
        c (sum_list (map (\<lambda>p. sum_list (map sum_list p)) a))
          (sum_list (map (\<lambda>p. sum_list (map sum_list p)) b))"
  proof (rule sum_list_map2 [where c = c and ?g1.0 = "\<lambda>p. sum_list (map sum_list p)" and ?g2.0 = "\<lambda>p. sum_list (map sum_list p)", OF _ _ c0 cadd])
    show "length a = length b" using a b by (simp add: shape3_length)
  next
    fix i assume "i < length a"
    then have i: "i < n" using a by (simp add: shape3_length)
    show "sum_list (map sum_list (map2 (map2 c) (a ! i) (b ! i))) =
          c (sum_list (map sum_list (a ! i))) (sum_list (map sum_list (b ! i)))"
      using a b i by (intro planes) (simp_all add: shape3_length)
  qed
  then show ?thesis by (simp add: sum3_def)
qed

lemma sum3_add3: "shape3 n a \<Longrightarrow> shape3 n b \<Longrightarrow> sum3 (add3 a b) = sum3 a + sum3 b"
  unfolding add3_def by (rule sum3_zip3) simp_all

lemma sum3_sub3: "shape3 n a \<Longrightarrow> shape3 n b \<Longrightarrow> sum3 (sub3 a b) = sum3 a - sum3 b"
  unfolding sub3_def by (rule sum3_zip3) simp_all

lemma sum3_smul3: "sum3 (smul3 c a) = c * sum3 a"
  by (simp add: sum3_def smul3_def comp_def sum_list_const_mult)

lemma sum3_sdiv3: "sum3 (sdiv3 a c) = sum3 a / c"
proof -
  have "sdiv3 a c = smul3 (1 / c) a"
    by (simp add: sdiv3_def smul3_def)
  then show ?thesis by (simp add: sum3_smul3)
qed

lemma sum3_laplacian:
  assumes a: "shape3 n a"
  shows "sum3 (lap_val dx a) = 0"
  unfolding lap_val_def
  by (simp add: sum3_sdiv3 sum3_sub3 [where n = n] sum3_add3 [where n = n] sum3_smul3 sum3_roll
      shape3_arith shape3_roll a del: roll.simps)

section \<open>Boundary conditions\<close>

lemma bind_err_simps [simp]:
  "bind_err (Inl e) f = Inl e"
  "bind_err (Inr v) f = f v"
  by (simp_all add: bind_err_def)

lemma norm_index_first: "0 < n \<Longrightarrow> norm_index n 0 = Inr 0"
  by (simp add: norm_index_def)

lemma norm_index_last: "0 < n \<Longrightarrow> norm_index n (- 1) = Inr (n - 1)"
  by (simp add: norm_index_def Let_def nat_diff_distrib')

lemma norm_index_empty: "norm_index 0 i = Inl IndexError"
  by (simp add: norm_index_def Let_def)

lemma shape3_dims:
  assumes "shape3 n a"
  shows "dim0 a = n" and "dim1 a = n" and "dim2 a = n"
proof -
  show "dim0 a = n" using assms by (simp add: dim0_def shape3_def)
  show "dim1 a = n" using assms by (cases a) (auto simp: dim1_def shape3_def)
  show "dim2 a = n" using assms
    by (cases a; cases "hd a") (auto simp: dim2_def shape3_def)
qed

lemma assign0_shape:
  assumes a: "shape3 n a" and m: "m < n"
  shows "shape3 n (a[m := map (map (\<lambda>_. v)) (a ! m)])"
  using a m by (simp add: shape3_iff nth_list_update)

lemma assign0_at3:
  assumes a: "shape3 n a" and "m < n" "i < n" "j < n" "k < n"
  shows "at3 (a[m := map (map (\<lambda>_. v)) (a ! m)]) i j k = (if i = m then v else at3 a i j k)"
  using assms by (simp add: shape3_iff at3_def nth_list_update)

lemma assign1_shape:
  assumes a: "shape3 n a" and m: "m < n"
  shows "shape3 n (map (\<lambda>p. p[m := map (\<lambda>_. v) (p ! m)]) a)"
  using a m by (simp add: shape3_iff nth_list_update)

lemma assign1_at3:
  assumes a: "shape3 n a" and "m < n" "i < n" "j < n" "k < n"
  shows "at3 (map (\<lambda>p. p[m := map (\<lambda>_. v) (p ! m)]) a) i j k =
         (if j = m then v else at3 a i j k)"
  using assms by (simp add: shape3_iff at3_def nth_list_update)

lemma assign2_shape:
  assumes a: "shape3 n a"
  shows "shape3 n (map (map (\<lambda>r. r[m := v])) a)"
  using a by (simp add: shape3_iff)

lemma assign2_at3:
  assumes a: "shape3 n a" and "m < n" "i < n" "j < n" "k < n"
  shows "at3 (map (map (\<lambda>r. r[m := v])) a) i j k = (if k = m then v else at3 a i j k)"
  using assms by (simp add: shape3_iff at3_def nth_list_update)

text \<open>The array the six assignments leave behind.\<close>

lemma apply_boundary_ok:
  assumes a: "shape3 n a" and pos: "0 < n"
  shows "\<exists>b. apply_boundary a = Inr b \<and> shape3 n b \<and>
           (\<forall>i<n. \<forall>j<n. \<forall>k<n.
              at3 b i j k = (if on_face n i j k then 0 else at3 a i j k))"
proof -
  have l: "n - 1 < n" using pos by simp
  define a1 where "a1 = a[0 := map (map (\<lambda>_. 0)) (a ! 0)]"
  define a2 where "a2 = a1[n - 1 := map (map (\<lambda>_. 0)) (a1 ! (n - 1))]"
  define a3 where "a3 = map (\<lambda>p. p[0 := map (\<lambda>_. 0) (p ! 0)]) a2"
  define a4 where "a4 = map (\<lambda>p. p[n - 1 := map (\<lambda>_. 0) (p ! (n - 1))]) a3"
  define a5 where "a5 = map (map (\<lambda>r. r[0 := 0])) a4"
  define a6 where "a6 = map (map (\<lambda>r. r[n - 1 := 0])) a5"
  have s1: "shape3 n a1" unfolding a1_def by (rule assign0_shape [OF a pos])
  have s2: "shape3 n a2" unfolding a2_def by (rule assign0_shape [OF s1 l])
  have s3: "shape3 n a3" unfolding a3_def by (rule assign1_shape [OF s2 pos])
  have s4: "shape3 n a4" unfolding a4_def by (rule assign1_shape [OF s3 l])
  have s5: "shape3 n a5" unfolding a5_def by (rule assign2_shape [OF s4])
  have s6: "shape3 n a6" unfolding a6_def by (rule assign2_shape [OF s5])
  have e1: "assign0 a 0 0 = Inr a1"
    by (simp add: assign0_def shape3_dims [OF a] norm_index_first pos a1_def)
  have e2: "assign0 a1 (- 1) 0 = Inr a2"
    by (simp add: assign0_def shape3_dims [OF s1] norm_index_last pos a2_def)
  have e3: "assign1 a2 0 0 = Inr a3"
    by (simp add: assign1_def shape3_dims [OF s2] norm_index_first pos a3_def)
  have e4: "assign1 a3 (- 1) 0 = Inr a4"
    by (simp add: assign1_def shape3_dims [OF s3] norm_index_last pos a4_def)
  have e5: "assign2 a4 0 0 = Inr a5"
    by (simp add: assign2_def shape3_dims [OF s4] norm_index_first pos a5_def)
  have e6: "assign2 a5 (- 1) 0 = Inr a6"
    by (simp add: assign2_def shape3_dims [OF s5] norm_index_last pos a6_def)
  have run: "apply_boundary a = Inr a6"
    by (simp add: apply_boundary_def e1 e2 e3 e4 e5 e6)
  have vals: "at3 a6 i j k = (if on_face n i j k then 0 else at3 a i j k)"
    if ijk: "i < n" "j < n" "k < n" for i j k
  proof -
    have "at3 a6 i j k = (if k = n - 1 then 0 else at3 a5 i j k)"
      unfolding a6_def by (rule assign2_at3 [OF s5 l ijk])
    also have "at3 a5 i j k = (if k = 0 then 0 else at3 a4 i j k)"
      unfolding a5_def by (rule assign2_at3 [OF s4 pos ijk])
    also have "at3 a4 i j k = (if j = n - 1 then 0 else at3 a3 i j k)"
      unfolding a4_def by (rule assign1_at3 [OF s3 l ijk])
    also have "at3 a3 i j k = (if j = 0 then 0 else at3 a2 i j k)"
      unfolding a3_def by (rule assign1_at3 [OF s2 pos ijk])
    also have "at3 a2 i j k = (if i = n - 1 then 0 else at3 a1 i j k)"
      unfolding a2_def by (rule assign0_at3 [OF s1 l ijk])
    also have "at3 a1 i j k = (if i = 0 then 0 else at3 a i j k)"
      unfolding a1_def by (rule assign0_at3 [OF a pos ijk])
    finally show ?thesis by (simp add: on_face_def)
  qed
  show ?thesis using run s6 vals by blast
qed

lemma apply_boundary_empty: "apply_boundary [] = Inl IndexError"
  by (simp add: apply_boundary_def assign0_def dim0_def norm_index_empty)

section \<open>The loop body\<close>

lemma shape3_candidate:
  "shape3 n c \<Longrightarrow> shape3 n p \<Longrightarrow> shape3 n (cand_val dx dt c p)"
  unfolding cand_val_def candidate_def
  by (intro shape3_arith shape3_laplacian shape3_biharmonic)

lemma at3_candidate:
  assumes c: "shape3 n c" and p: "shape3 n p" and ijk: "i < n" "j < n" "k < n"
  shows "at3 (cand_val dx dt c p) i j k =
    2 * at3 c i j k - at3 p i j k + dt\<^sup>2 * at3 (lap_val dx c) i j k
      - dt ^ 4 * at3 (bih_val dx c) i j k"
  unfolding cand_val_def candidate_def
  by (simp add: at3_arith [where n = n] shape3_arith shape3_laplacian shape3_biharmonic c p ijk)

text \<open>The powers: where they are floats and where they raise.\<close>

lemma abs_power_less:
  fixes x :: real
  assumes "\<bar>x\<bar> < 2 ^ k" and "0 < n"
  shows "\<bar>x\<bar> ^ n < 2 ^ (k * n)"
proof -
  have "\<bar>x\<bar> ^ n < (2 ^ k) ^ n"
    using assms by (intro power_strict_mono) simp_all
  then show ?thesis by (simp add: power_mult)
qed

lemma abs_power_ge:
  fixes x :: real
  assumes "2 ^ k \<le> \<bar>x\<bar>"
  shows "2 ^ (k * n) \<le> \<bar>x\<bar> ^ n"
proof -
  have "(2 ^ k) ^ n \<le> \<bar>x\<bar> ^ n"
    using assms by (intro power_mono) simp_all
  then show ?thesis by (simp add: power_mult)
qed

lemma py_pow_fits:
  "\<bar>dx\<bar> < 2 ^ 512 \<Longrightarrow> py_pow dx 2 = Inr (dx ^ 2)"
  "\<bar>dt\<bar> < 2 ^ 256 \<Longrightarrow> py_pow dt 2 = Inr (dt ^ 2)"
  "\<bar>dt\<bar> < 2 ^ 256 \<Longrightarrow> py_pow dt 4 = Inr (dt ^ 4)"
proof -
  show "py_pow dx 2 = Inr (dx ^ 2)" if "\<bar>dx\<bar> < 2 ^ 512"
    using abs_power_less [OF that, of 2] by (simp add: py_pow_def)
  show "py_pow dt 4 = Inr (dt ^ 4)" if "\<bar>dt\<bar> < 2 ^ 256"
    using abs_power_less [OF that, of 4] by (simp add: py_pow_def)
  show "py_pow dt 2 = Inr (dt ^ 2)" if "\<bar>dt\<bar> < 2 ^ 256"
  proof -
    have "\<bar>dt\<bar> ^ 2 < 2 ^ (256 * 2)" using abs_power_less [OF that, of 2] by simp
    also have "\<dots> < (2::real) ^ 1024" by (intro power_strict_increasing) simp_all
    finally show ?thesis by (simp add: py_pow_def)
  qed
qed

lemma py_pow_overflow:
  "2 ^ 512 \<le> \<bar>dx\<bar> \<Longrightarrow> py_pow dx 2 = Inl OverflowError"
  "2 ^ 256 \<le> \<bar>dt\<bar> \<Longrightarrow> py_pow dt 4 = Inl OverflowError"
proof -
  show "py_pow dx 2 = Inl OverflowError" if "2 ^ 512 \<le> \<bar>dx\<bar>"
    using abs_power_ge [OF that, of 2] by (simp add: py_pow_def)
  show "py_pow dt 4 = Inl OverflowError" if "2 ^ 256 \<le> \<bar>dt\<bar>"
    using abs_power_ge [OF that, of 4] by (simp add: py_pow_def)
qed

lemma laplacian_fits: "\<bar>dx\<bar> < 2 ^ 512 \<Longrightarrow> laplacian dx a = Inr (lap_val dx a)"
  by (simp add: laplacian_def lap_val_def py_pow_fits)

lemma biharmonic_fits: "\<bar>dx\<bar> < 2 ^ 512 \<Longrightarrow> biharmonic dx a = Inr (bih_val dx a)"
  by (simp add: biharmonic_def bih_val_def laplacian_fits)

lemma laplacian_overflow: "2 ^ 512 \<le> \<bar>dx\<bar> \<Longrightarrow> laplacian dx a = Inl OverflowError"
  by (simp add: laplacian_def py_pow_overflow)

lemma biharmonic_overflow: "2 ^ 512 \<le> \<bar>dx\<bar> \<Longrightarrow> biharmonic dx a = Inl OverflowError"
  by (simp add: biharmonic_def laplacian_overflow)

lemma loop_body_overflow:
  assumes "\<not> powers_fit dx dt"
  shows "loop_body N dx dt s = Inl OverflowError"
proof (cases "\<bar>dx\<bar> < 2 ^ 512")
  case False
  then show ?thesis by (simp add: loop_body_def laplacian_overflow)
next
  case True
  then have "2 ^ 256 \<le> \<bar>dt\<bar>" using assms by (simp add: powers_fit_def)
  then have dt4: "py_pow dt 4 = Inl OverflowError" by (rule py_pow_overflow)
  have dt2: "py_pow dt 2 = Inl OverflowError \<or> py_pow dt 2 = Inr (dt ^ 2)"
    by (simp add: py_pow_def)
  show ?thesis
    using dt2
    by (auto simp: loop_body_def laplacian_fits [OF True] biharmonic_fits [OF True] dt4)
qed

lemma mid_index:
  assumes "0 < n"
  shows "norm_index n (int n div 2) = Inr (n div 2)"
proof -
  have e: "int n div 2 = int (n div 2)" by simp
  have "n div 2 < n" using assms by simp
  then show ?thesis unfolding e by (simp add: norm_index_def Let_def)
qed

lemma loop_body_ok:
  assumes wf: "wf_state n s" and pos: "0 < n" and fit: "powers_fit dx dt"
  shows "\<exists>b. apply_boundary (cand_val dx dt (heap s ! u s) (heap s ! u_prev s)) = Inr b \<and>
    shape3 n b \<and>
    loop_body (int n) dx dt s =
      Inr (s\<lparr>heap := heap s @ [b, heap s ! u s, b],
              u := length (heap s) + 2, u_prev := length (heap s) + 1,
              u_next := length (heap s),
              frames := frames s @ [(length (heap s) + 2, n div 2)]\<rparr>)"
proof -
  let ?c = "heap s ! u s" and ?p = "heap s ! u_prev s"
  have c: "shape3 n ?c" and p: "shape3 n ?p" and uc: "u s < length (heap s)"
    using wf by (simp_all add: wf_state_def)
  have dx: "\<bar>dx\<bar> < 2 ^ 512" and dt: "\<bar>dt\<bar> < 2 ^ 256"
    using fit by (simp_all add: powers_fit_def)
  obtain b where b: "apply_boundary (cand_val dx dt ?c ?p) = Inr b" and sb: "shape3 n b"
    using apply_boundary_ok [OF shape3_candidate [OF c p] pos] by blast
  have "loop_body (int n) dx dt s =
      Inr (s\<lparr>heap := heap s @ [b, ?c, b],
              u := length (heap s) + 2, u_prev := length (heap s) + 1,
              u_next := length (heap s),
              frames := frames s @ [(length (heap s) + 2, n div 2)]\<rparr>)"
    using uc
    by (simp add: loop_body_def laplacian_fits [OF dx] biharmonic_fits [OF dx]
        py_pow_fits(2,3) [OF dt] cand_val_def [symmetric] Let_def b nth_append
        shape3_dims [OF sb] mid_index [OF pos])
  then show ?thesis using b sb by blast
qed

lemma loop_body_empty:
  assumes "shape3 0 (heap s ! u s)" "shape3 0 (heap s ! u_prev s)" and fit: "powers_fit dx dt"
  shows "loop_body N dx dt s = Inl IndexError"
proof -
  have dx: "\<bar>dx\<bar> < 2 ^ 512" and dt: "\<bar>dt\<bar> < 2 ^ 256"
    using fit by (simp_all add: powers_fit_def)
  have "shape3 0 (cand_val dx dt (heap s ! u s) (heap s ! u_prev s))"
    by (rule shape3_candidate [OF assms(1,2)])
  then have "cand_val dx dt (heap s ! u s) (heap s ! u_prev s) = []"
    by (simp add: shape3_def)
  then show ?thesis
    by (simp add: loop_body_def laplacian_fits [OF dx] biharmonic_fits [OF dx]
        py_pow_fits(2,3) [OF dt] cand_val_def [symmetric] Let_def apply_boundary_empty)
qed

section \<open>Iterating the body\<close>

lemma loop_body_wf:
  assumes wf: "wf_state n s" and pos: "0 < n" and fit: "powers_fit dx dt"
  shows "\<exists>s'. loop_body (int n) dx dt s = Inr s' \<and> wf_state n s' \<and>
    take (length (heap s)) (heap s') = heap s \<and>
    frames s' = frames s @ [(u s', n div 2)] \<and>
    u s' < length (heap s') \<and> length (heap s) \<le> u s'"
proof -
  obtain b where sb: "shape3 n b" and
    e: "loop_body (int n) dx dt s =
      Inr (s\<lparr>heap := heap s @ [b, heap s ! u s, b],
              u := length (heap s) + 2, u_prev := length (heap s) + 1,
              u_next := length (heap s),
              frames := frames s @ [(length (heap s) + 2, n div 2)]\<rparr>)"
    using loop_body_ok [OF wf pos fit] by blast
  have c: "shape3 n (heap s ! u s)" and uc: "u s < length (heap s)"
    and fr: "\<forall>fr \<in> set (frames s). fst fr < length (heap s)"
    using wf by (simp_all add: wf_state_def)
  show ?thesis
    unfolding e using sb c uc fr
    by (auto simp: wf_state_def nth_append)
qed

lemma loop_add:
  "loop (a + b) N dx dt s = bind_err (loop a N dx dt s) (loop b N dx dt)"
proof (induction a arbitrary: s)
  case 0
  show ?case by simp
next
  case (Suc a)
  show ?case by (cases "loop_body N dx dt s") (simp_all add: Suc.IH)
qed

lemma take_length_le:
  assumes "take (length ys) xs = ys"
  shows "length ys \<le> length xs"
proof -
  have "length (take (length ys) xs) = length ys" using assms by simp
  then show ?thesis by simp
qed

lemma take_take_eq:
  assumes "take (length ys) zs = ys" and "take (length xs) ys = xs"
  shows "take (length xs) zs = xs"
proof -
  have "length xs \<le> length ys" by (rule take_length_le [OF assms(2)])
  then have "take (length xs) zs = take (length xs) (take (length ys) zs)"
    by (simp add: min_def)
  then show ?thesis using assms by simp
qed

lemma loop_ok:
  assumes "wf_state n s" and pos: "0 < n" and fit: "powers_fit dx dt"
  shows "\<exists>s'. loop m (int n) dx dt s = Inr s' \<and> wf_state n s' \<and>
    take (length (heap s)) (heap s') = heap s \<and>
    take (length (frames s)) (frames s') = frames s \<and>
    length (frames s') = length (frames s) + m"
  using assms(1)
proof (induction m arbitrary: s)
  case 0
  then show ?case by simp
next
  case (Suc m)
  obtain s1 where s1: "loop_body (int n) dx dt s = Inr s1" and wf1: "wf_state n s1"
    and h1: "take (length (heap s)) (heap s1) = heap s"
    and f1: "frames s1 = frames s @ [(u s1, n div 2)]"
    using loop_body_wf [OF Suc.prems pos fit] by blast
  obtain s' where s': "loop m (int n) dx dt s1 = Inr s'" and wf': "wf_state n s'"
    and h': "take (length (heap s1)) (heap s') = heap s1"
    and f': "take (length (frames s1)) (frames s') = frames s1"
    and l': "length (frames s') = length (frames s1) + m"
    using Suc.IH [OF wf1] by blast
  have h: "take (length (heap s)) (heap s') = heap s"
    by (rule take_take_eq [OF h' h1])
  have "take (length (frames s)) (frames s1) = frames s" by (simp add: f1)
  then have f: "take (length (frames s)) (frames s') = frames s"
    by (rule take_take_eq [OF f'])
  show ?case using s1 s' wf' h f l' f1 by simp
qed

lemma take_nth_eq: "take m xs = ys \<Longrightarrow> i < length ys \<Longrightarrow> xs ! i = ys ! i"
  by (metis nth_take length_take min_less_iff_conj)

lemma loop_frames:
  assumes wf: "wf_state n s" and pos: "0 < n" and fit: "powers_fit dx dt" and i: "i < m"
  shows "\<exists>si s'. loop (Suc i) (int n) dx dt s = Inr si \<and> loop m (int n) dx dt s = Inr s' \<and>
    length (frames s') = length (frames s) + m \<and>
    frames s' ! (length (frames s) + i) = (u si, n div 2) \<and>
    u si < length (heap si) \<and>
    heap s' ! u si = heap si ! u si"
proof -
  obtain sp where sp: "loop i (int n) dx dt s = Inr sp" and wfp: "wf_state n sp"
    and lp: "length (frames sp) = length (frames s) + i"
    using loop_ok [OF wf pos fit, of i] by blast
  obtain si where b: "loop_body (int n) dx dt sp = Inr si" and wfi: "wf_state n si"
    and fi: "frames si = frames sp @ [(u si, n div 2)]"
    and ui: "u si < length (heap si)"
    using loop_body_wf [OF wfp pos fit] by blast
  have "loop (i + 1) (int n) dx dt s = Inr si"
    unfolding loop_add by (simp add: sp b)
  then have si: "loop (Suc i) (int n) dx dt s = Inr si" by simp
  obtain s' where r: "loop (m - Suc i) (int n) dx dt si = Inr s'"
    and h: "take (length (heap si)) (heap s') = heap si"
    and f: "take (length (frames si)) (frames s') = frames si"
    and l: "length (frames s') = length (frames si) + (m - Suc i)"
    using loop_ok [OF wfi pos fit, of "m - Suc i"] by blast
  have "loop (Suc i + (m - Suc i)) (int n) dx dt s = Inr s'"
    unfolding loop_add by (simp only: si bind_err_simps r)
  then have s': "loop m (int n) dx dt s = Inr s'" using i by simp
  have len: "length (frames s') = length (frames s) + m"
    using l fi lp i by simp
  have "frames s' ! (length (frames s) + i) = frames si ! (length (frames s) + i)"
    by (rule take_nth_eq [OF f]) (simp add: fi lp)
  also have "\<dots> = (u si, n div 2)" by (simp add: fi lp [symmetric])
  finally have fr: "frames s' ! (length (frames s) + i) = (u si, n div 2)" .
  have hp: "heap s' ! u si = heap si ! u si"
    by (rule take_nth_eq [OF h ui])
  show ?thesis using si s' len fr ui hp by blast
qed

section \<open>The grid and the initial condition\<close>

lemma linspace_length:
  "0 \<le> N \<Longrightarrow> \<exists>x. linspace a b N = Inr x \<and> length x = nat N"
  by (simp add: linspace_def Let_def)

lemma linspace_negative: "N < 0 \<Longrightarrow> linspace a b N = Inl ValueError"
  by (simp add: linspace_def)

lemma linspace_nth:
  assumes N: "2 \<le> N" and x: "linspace a b N = Inr x" and i: "i < nat N"
  shows "x ! i = a + real i * ((b - a) / real_of_int (N - 1))"
proof -
  let ?step = "(b - a) / real_of_int (N - 1)"
  have xe: "x = (map (\<lambda>i. a + real i * ?step) [0..<nat N])[nat N - 1 := b]"
    using x N by (simp add: linspace_def Let_def)
  have ne: "real_of_int (N - 1) \<noteq> 0" using N by simp
  show ?thesis
  proof (cases "i = nat N - 1")
    case True
    have "real i = real_of_int (N - 1)" using True N by (simp add: of_nat_diff)
    then have "a + real i * ?step = b" using ne by simp
    then show ?thesis using True i by (simp add: xe)
  next
    case False
    then show ?thesis using i by (simp add: xe)
  qed
qed

lemma linspace_ends:
  assumes N: "1 \<le> N" and x: "linspace 0 L N = Inr x"
  shows "x ! 0 = 0" and "x ! (nat N - 1) = (if N = 1 then 0 else L)"
proof -
  show "x ! 0 = 0"
  proof (cases "N = 1")
    case True
    then show ?thesis using x by (auto simp: linspace_def)
  next
    case False
    then have "2 \<le> N" using N by simp
    then show ?thesis using linspace_nth [OF _ x, of 0] by simp
  qed
  show "x ! (nat N - 1) = (if N = 1 then 0 else L)"
  proof (cases "N = 1")
    case True
    then show ?thesis using x by (auto simp: linspace_def)
  next
    case False
    then have N2: "2 \<le> N" using N by simp
    then have "real (nat N - 1) = real_of_int (N - 1)" by (simp add: of_nat_diff)
    then show ?thesis using linspace_nth [OF N2 x, of "nat N - 1"] N2 False by simp
  qed
qed

lemma shape3_initial_condition:
  assumes "length x = n" "length y = n" "length z = n"
  shows "shape3 n (initial_condition sin_pi x y z)"
  using assms
  by (simp add: initial_condition_def meshgrid_def mul3_def map3_def shape3_iff)


lemma wf_init_state: "shape3 n u0 \<Longrightarrow> wf_state n (init_state u0)"
  by (simp add: wf_state_def init_state_def)

lemma py_float_ok: "\<bar>n\<bar> < 2 ^ 1024 - 2 ^ 970 \<Longrightarrow> py_float n = Inr (real_of_int n)"
  by (simp add: py_float_def)

lemma run_is_loop:
  assumes dt: "dt \<noteq> 0" and q: "py_int q = Inr steps"
    and N: "2 \<le> N" and fits: "N - 1 < 2 ^ 1024 - 2 ^ 970"
  shows "\<exists>x. linspace 0 L N = Inr x \<and>
    wf_state (nat N) (init_state (initial_condition sin_pi x x x)) \<and>
    frames (init_state (initial_condition sin_pi x x x)) = [] \<and>
    run sin_pi q L N T dt alpha =
      loop (nat steps) N (L / real_of_int (N - 1)) dt
        (init_state (initial_condition sin_pi x x x))"
proof -
  obtain x where x: "linspace 0 L N = Inr x" and len: "length x = nat N"
    using linspace_length [of N 0 L] N by auto
  have wf: "wf_state (nat N) (init_state (initial_condition sin_pi x x x))"
    by (rule wf_init_state [OF shape3_initial_condition [OF len len len]])
  have fr: "frames (init_state (initial_condition sin_pi x x x)) = []"
    by (simp add: init_state_def)
  have d: "py_float (N - 1) = Inr (real_of_int (N - 1))"
    using N fits by (intro py_float_ok) simp
  have "run sin_pi q L N T dt alpha =
      loop (nat steps) N (L / real_of_int (N - 1)) dt
        (init_state (initial_condition sin_pi x x x))"
    using dt N by (simp add: run_def py_truediv_def q d py_div_def x)
  then show ?thesis using x wf fr by blast
qed

section \<open>The stencil operators: claims C2, C4 and C9\<close>

lemma laplacian_eq_spec:
  assumes f: "shape3 n f"
  shows "lap_val dx f = laplacian_spec n dx f"
proof (rule array3_eqI [where n = n])
  show "shape3 n (lap_val dx f)" by (rule shape3_laplacian [OF f])
  show "shape3 n (laplacian_spec n dx f)" by (simp add: laplacian_spec_def shape3_iff)
next
  fix i j k assume ijk: "i < n" "j < n" "k < n"
  have "at3 (laplacian_spec n dx f) i j k =
    (at3 f (wrap n i (- 1)) j k + at3 f (wrap n i 1) j k +
     at3 f i (wrap n j (- 1)) k + at3 f i (wrap n j 1) k +
     at3 f i j (wrap n k (- 1)) + at3 f i j (wrap n k 1) - 6 * at3 f i j k) / dx\<^sup>2"
    using ijk by (simp add: laplacian_spec_def at3_def [of "map _ _"])
  then show "at3 (lap_val dx f) i j k = at3 (laplacian_spec n dx f) i j k"
    by (simp add: at3_laplacian [OF f ijk])
qed




text \<open>
  Claim C4 fails in its last part: \<^verbatim>\<open>biharmonic\<close> has an error condition, the one of
  \<^verbatim>\<open>laplacian\<close>. With \<open>dx = 2^512\<close> the power \<^verbatim>\<open>dx**2\<close> is no float and both raise
  \<^verbatim>\<open>OverflowError\<close>.
\<close>

theorem biharmonic_raises_counterexample:
  "laplacian (2 ^ 512) [[[1, 2], [3, 4]], [[5, 6], [7, 8]]] = Inl OverflowError
   \<and> biharmonic (2 ^ 512) [[[1, 2], [3, 4]], [[5, 6], [7, 8]]] = Inl OverflowError"
  by (simp add: laplacian_overflow biharmonic_overflow)

text \<open>
  Claim C4, amended. \<^verbatim>\<open>biharmonic\<close> is the Laplacian applied twice, whether that returns
  or raises. While \<^verbatim>\<open>dx**2\<close> is a float (\<open>|dx| < 2^512\<close>) it returns, its result equals
  the stencil of the specification applied twice and has the shape of the argument; from
  \<open>|dx| = 2^512\<close> on it raises \<^verbatim>\<open>OverflowError\<close>, its only error.
\<close>

theorem biharmonic_is_laplacian_twice:
  "biharmonic dx f = bind_err (laplacian dx f) (laplacian dx)
   \<and> (shape3 N f \<and> \<bar>dx\<bar> < 2 ^ 512 \<longrightarrow>
        (\<exists>l b. laplacian dx f = Inr l \<and> laplacian dx l = Inr b \<and> biharmonic dx f = Inr b \<and>
               b = laplacian_spec N dx (laplacian_spec N dx f) \<and> shape3 N b))
   \<and> (2 ^ 512 \<le> \<bar>dx\<bar> \<longrightarrow> biharmonic dx f = Inl OverflowError)"
proof (intro conjI impI)
  show "biharmonic dx f = bind_err (laplacian dx f) (laplacian dx)"
    by (simp add: biharmonic_def)
next
  assume a: "shape3 N f \<and> \<bar>dx\<bar> < 2 ^ 512"
  then have f: "shape3 N f" and dx: "\<bar>dx\<bar> < 2 ^ 512" by simp_all
  have outer: "lap_val dx (lap_val dx f) = laplacian_spec N dx (lap_val dx f)"
    by (rule laplacian_eq_spec [OF shape3_laplacian [OF f]])
  have inner: "lap_val dx f = laplacian_spec N dx f"
    by (rule laplacian_eq_spec [OF f])
  have spec: "bih_val dx f = laplacian_spec N dx (laplacian_spec N dx f)"
    unfolding bih_val_def by (subst outer, subst inner) (rule refl)
  have "laplacian dx f = Inr (lap_val dx f)"
    and "laplacian dx (lap_val dx f) = Inr (bih_val dx f)"
    and "biharmonic dx f = Inr (bih_val dx f)"
    by (simp_all add: laplacian_fits [OF dx] biharmonic_fits [OF dx] bih_val_def)
  then show "\<exists>l b. laplacian dx f = Inr l \<and> laplacian dx l = Inr b \<and> biharmonic dx f = Inr b \<and>
               b = laplacian_spec N dx (laplacian_spec N dx f) \<and> shape3 N b"
    using spec shape3_biharmonic [OF f, of dx] by blast
next
  assume "2 ^ 512 \<le> \<bar>dx\<bar>"
  then show "biharmonic dx f = Inl OverflowError" by (rule biharmonic_overflow)
qed

theorem biharmonic_is_laplacian_twice_witness:
  "shape3 2 [[[1, 2], [3, 4]], [[5, 6], [7, 8]]] \<and> \<bar>1::real\<bar> < 2 ^ 512
   \<and> (\<exists>b. biharmonic 1 [[[1, 2], [3, 4]], [[5, 6], [7, 8]]] = Inr b \<and> shape3 2 b)
   \<and> (2::real) ^ 512 \<le> \<bar>2 ^ 512\<bar>
   \<and> biharmonic (2 ^ 512) [[[1, 2], [3, 4]], [[5, 6], [7, 8]]] = Inl OverflowError"
proof -
  have h: "shape3 2 [[[1, 2], [3, 4]], [[5, 6], [7, 8]]]" by (simp add: shape3_def)
  have d: "\<bar>1::real\<bar> < 2 ^ 512" by simp
  have o: "(2::real) ^ 512 \<le> \<bar>2 ^ 512\<bar>" by simp
  have "\<exists>b. biharmonic 1 [[[1, 2], [3, 4]], [[5, 6], [7, 8]]] = Inr b \<and> shape3 2 b"
    using biharmonic_is_laplacian_twice [of 1 "[[[1, 2], [3, 4]], [[5, 6], [7, 8]]]" 2] h d by blast
  moreover have "biharmonic (2 ^ 512) [[[1, 2], [3, 4]], [[5, 6], [7, 8]]] = Inl OverflowError"
    using biharmonic_is_laplacian_twice [of "2 ^ 512" "[[[1, 2], [3, 4]], [[5, 6], [7, 8]]]" 2] o by blast
  ultimately show ?thesis using h d o by blast
qed



section \<open>One step of the loop: claims C1, C3 and C7\<close>

lemma loop_body_result:
  assumes wf: "wf_state n s" and pos: "0 < n" and fit: "powers_fit dx dt"
  shows "\<exists>s' b. loop_body (int n) dx dt s = Inr s' \<and>
    apply_boundary (cand_val dx dt (heap s ! u s) (heap s ! u_prev s)) = Inr b \<and>
    heap s' ! u s' = b \<and> heap s' ! u_prev s' = heap s ! u s \<and>
    heap s' ! u s = heap s ! u s \<and> u_prev s' \<noteq> u s' \<and> shape3 n b \<and>
    (\<forall>i<n. \<forall>j<n. \<forall>k<n. at3 b i j k =
       (if on_face n i j k then 0
        else at3 (cand_val dx dt (heap s ! u s) (heap s ! u_prev s)) i j k))"
proof -
  let ?c = "heap s ! u s" and ?p = "heap s ! u_prev s"
  have c: "shape3 n ?c" and p: "shape3 n ?p" and uc: "u s < length (heap s)"
    using wf by (simp_all add: wf_state_def)
  obtain b where b: "apply_boundary (cand_val dx dt ?c ?p) = Inr b" and sb: "shape3 n b"
    and e: "loop_body (int n) dx dt s =
      Inr (s\<lparr>heap := heap s @ [b, ?c, b],
              u := length (heap s) + 2, u_prev := length (heap s) + 1,
              u_next := length (heap s),
              frames := frames s @ [(length (heap s) + 2, n div 2)]\<rparr>)"
    using loop_body_ok [OF wf pos fit] by blast
  obtain b' where b': "apply_boundary (cand_val dx dt ?c ?p) = Inr b'"
    and v: "\<forall>i<n. \<forall>j<n. \<forall>k<n. at3 b' i j k =
       (if on_face n i j k then 0 else at3 (cand_val dx dt ?c ?p) i j k)"
    using apply_boundary_ok [OF shape3_candidate [OF c p] pos, of dx dt] by blast
  have bb: "b' = b" using b b' by simp
  show ?thesis
    unfolding e using b sb v uc unfolding bb
    by (simp add: nth_append)
qed

text \<open>
  Claim C1 fails as stated for every \<open>dt > 0\<close>: with \<open>dt = 2^256\<close> the power \<^verbatim>\<open>dt**4\<close> is
  no float, and the first iteration from a \<open>3 \<times> 3 \<times> 3\<close> field raises \<^verbatim>\<open>OverflowError\<close>
  instead of producing a field.
\<close>

theorem step_raises_counterexample:
  "wf_state 3 (init_state [[[0, 0, 0], [0, 0, 0], [0, 0, 0]],
     [[0, 0, 0], [0, 1, 0], [0, 0, 0]],
     [[0, 0, 0], [0, 0, 0], [0, 0, 0]]])
   \<and> (0::real) < 2 ^ 256
   \<and> loop_body 3 1 (2 ^ 256) (init_state [[[0, 0, 0], [0, 0, 0], [0, 0, 0]],
     [[0, 0, 0], [0, 1, 0], [0, 0, 0]],
     [[0, 0, 0], [0, 0, 0], [0, 0, 0]]]) = Inl OverflowError"
proof -
  have "\<not> powers_fit 1 (2 ^ 256)" by (simp add: powers_fit_def)
  then have "loop_body 3 1 (2 ^ 256) (init_state [[[0, 0, 0], [0, 0, 0], [0, 0, 0]],
     [[0, 0, 0], [0, 1, 0], [0, 0, 0]],
     [[0, 0, 0], [0, 0, 0], [0, 0, 0]]]) = Inl OverflowError"
    by (rule loop_body_overflow)
  then show ?thesis by (simp add: wf_state_def init_state_def shape3_def)
qed

text \<open>
  Claim C1, amended. From a state whose \<^verbatim>\<open>u\<close> and \<^verbatim>\<open>u_prev\<close> hold \<open>N \<times> N \<times> N\<close> fields
  (\<open>N \<ge> 1\<close>), with \<open>dx \<noteq> 0\<close>, \<open>|dx| < 2^512\<close> and \<open>|dt| < 2^256\<close> (so that \<^verbatim>\<open>dx**2\<close>,
  \<^verbatim>\<open>dt**2\<close> and \<^verbatim>\<open>dt**4\<close> are floats), one iteration of the loop succeeds. Afterwards
  \<^verbatim>\<open>u_prev\<close> holds the field \<^verbatim>\<open>u\<close> held before, in a buffer of its own, and \<^verbatim>\<open>u\<close>
  holds the boundary-enforced candidate: zero on the six faces and, at every other
  point, \<open>2\<cdot>current - previous + dt\<^sup>2\<cdot>laplacian(current) - dt\<^sup>4\<cdot>biharmonic(current)\<close>
  (in exact arithmetic).
\<close>

theorem step_recurrence:
  assumes "wf_state N s" and "0 < N" and "dx \<noteq> 0"
    and "\<bar>dx\<bar> < 2 ^ 512" and "\<bar>dt\<bar> < 2 ^ 256"
  shows "\<exists>s' lap_u biharm_u.
    laplacian dx (heap s ! u s) = Inr lap_u \<and>
    biharmonic dx (heap s ! u s) = Inr biharm_u \<and>
    loop_body (int N) dx dt s = Inr s' \<and>
    heap s' ! u_prev s' = heap s ! u s \<and>
    u_prev s' \<noteq> u s' \<and>
    apply_boundary (candidate (dt\<^sup>2) (dt ^ 4) (heap s ! u s) (heap s ! u_prev s) lap_u biharm_u)
      = Inr (heap s' ! u s') \<and>
    shape3 N (heap s' ! u s') \<and>
    (\<forall>i<N. \<forall>j<N. \<forall>k<N. at3 (heap s' ! u s') i j k =
       (if on_face N i j k then 0
        else 2 * at3 (heap s ! u s) i j k - at3 (heap s ! u_prev s) i j k
             + dt\<^sup>2 * at3 lap_u i j k
             - dt ^ 4 * at3 biharm_u i j k))"
proof -
  have c: "shape3 N (heap s ! u s)" and p: "shape3 N (heap s ! u_prev s)"
    using assms(1) by (simp_all add: wf_state_def)
  have fit: "powers_fit dx dt" using assms(4,5) by (simp add: powers_fit_def)
  obtain s' b where "loop_body (int N) dx dt s = Inr s'"
    "apply_boundary (cand_val dx dt (heap s ! u s) (heap s ! u_prev s)) = Inr b"
    "heap s' ! u s' = b" "heap s' ! u_prev s' = heap s ! u s"
    "u_prev s' \<noteq> u s'" "shape3 N b"
    "\<forall>i<N. \<forall>j<N. \<forall>k<N. at3 b i j k =
       (if on_face N i j k then 0
        else at3 (cand_val dx dt (heap s ! u s) (heap s ! u_prev s)) i j k)"
    using loop_body_result [OF assms(1,2) fit] by blast
  then show ?thesis
    apply -
    apply (rule exI [of _ s'])
    apply (rule exI [of _ "lap_val dx (heap s ! u s)"])
    apply (rule exI [of _ "bih_val dx (heap s ! u s)"])
    apply (simp add: at3_candidate [OF c p] laplacian_fits [OF assms(4)]
          biharmonic_fits [OF assms(4)])
    apply (simp add: cand_val_def)
    done
qed

theorem step_recurrence_witness:
  "wf_state 3 (init_state [[[0, 0, 0], [0, 0, 0], [0, 0, 0]],
     [[0, 0, 0], [0, 1, 0], [0, 0, 0]],
     [[0, 0, 0], [0, 0, 0], [0, 0, 0]]]) \<and> (0::nat) < 3 \<and> (1::real) \<noteq> 0
   \<and> \<bar>1::real\<bar> < 2 ^ 512 \<and> \<bar>1::real\<bar> < 2 ^ 256 \<and>
   (\<exists>s'. loop_body 3 1 1 (init_state [[[0, 0, 0], [0, 0, 0], [0, 0, 0]],
     [[0, 0, 0], [0, 1, 0], [0, 0, 0]],
     [[0, 0, 0], [0, 0, 0], [0, 0, 0]]]) = Inr s' \<and>
         heap s' ! u_prev s' = [[[0, 0, 0], [0, 0, 0], [0, 0, 0]],
     [[0, 0, 0], [0, 1, 0], [0, 0, 0]],
     [[0, 0, 0], [0, 0, 0], [0, 0, 0]]] \<and>
         at3 (heap s' ! u s') 1 1 1 = - 47)"
proof -
  let ?F = "[[[0, 0, 0], [0, 0, 0], [0, 0, 0]],
     [[0, 0, 0], [0, 1, 0], [0, 0, 0]],
     [[0, 0, 0], [0, 0, 0], [0, 0, 0]]] :: array3"
  have h: "wf_state 3 (init_state ?F)"
    by (simp add: wf_state_def init_state_def shape3_def)
  have d: "(1::real) \<noteq> 0" by simp
  have b1: "\<bar>1::real\<bar> < 2 ^ 512" by simp
  have b2: "\<bar>1::real\<bar> < 2 ^ 256" by simp
  have sF: "shape3 3 ?F" by (simp add: shape3_def)
  have l: "at3 (lap_val 1 ?F) 1 1 1 = - 6"
    by (simp add: at3_laplacian [OF sF] wrap_def) (simp add: at3_def)
  have l2: "at3 (lap_val 1 (lap_val 1 ?F)) 1 1 1 = 42"
    by (simp add: at3_laplacian [OF shape3_laplacian [OF sF]] at3_laplacian [OF sF] wrap_def)
       (simp add: at3_def)
  have cur: "heap (init_state ?F) ! u (init_state ?F) = ?F"
    and prev: "heap (init_state ?F) ! u_prev (init_state ?F) = ?F"
    by (simp_all add: init_state_def)
  have lf: "laplacian 1 ?F = Inr (lap_val 1 ?F)" by (rule laplacian_fits [OF b1])
  have bf: "biharmonic 1 ?F = Inr (bih_val 1 ?F)" by (rule biharmonic_fits [OF b1])
  have c: "at3 ?F 1 1 1 = 1" by (simp add: at3_def)
  have inner: "\<not> on_face 3 1 1 1" by (simp add: on_face_def)
  obtain s' where run: "loop_body (int 3) 1 1 (init_state ?F) = Inr s'"
    and old: "heap s' ! u_prev s' = ?F"
    and new: "\<forall>i<3. \<forall>j<3. \<forall>k<3. at3 (heap s' ! u s') i j k =
       (if on_face 3 i j k then 0
        else 2 * at3 ?F i j k - at3 ?F i j k
             + 1\<^sup>2 * at3 (lap_val 1 ?F) i j k
             - 1 ^ 4 * at3 (bih_val 1 ?F) i j k)"
    using step_recurrence [OF h _ d b1 b2] unfolding cur prev lf bf by auto
  have "at3 (heap s' ! u s') 1 1 1 =
        2 * at3 ?F 1 1 1 - at3 ?F 1 1 1 + 1\<^sup>2 * at3 (lap_val 1 ?F) 1 1 1
          - 1 ^ 4 * at3 (bih_val 1 ?F) 1 1 1"
    using new [rule_format, of 1 1 1] inner by simp
  then have "at3 (heap s' ! u s') 1 1 1 = - 47"
    unfolding bih_val_def l l2 c by simp
  then show ?thesis using h run old by auto
qed

lemma loop_Suc_end:
  "loop (Suc m) N dx dt s = bind_err (loop m N dx dt s) (loop_body N dx dt)"
proof -
  have "loop (m + 1) N dx dt s = bind_err (loop m N dx dt s) (loop 1 N dx dt)"
    by (rule loop_add)
  moreover have "loop 1 N dx dt = loop_body N dx dt"
  proof
    fix t show "loop 1 N dx dt t = loop_body N dx dt t"
      by (cases "loop_body N dx dt t") simp_all
  qed
  ultimately show ?thesis by simp
qed

lemma loop_body_zero_faces:
  assumes wf: "wf_state n s" and pos: "0 < n" and fit: "powers_fit dx dt"
  shows "\<exists>s'. loop_body (int n) dx dt s = Inr s' \<and> wf_state n s' \<and>
    zero_faces n (heap s' ! u s')"
proof -
  obtain s' b where r: "loop_body (int n) dx dt s = Inr s'" and "heap s' ! u s' = b"
    and "\<forall>i<n. \<forall>j<n. \<forall>k<n. at3 b i j k =
       (if on_face n i j k then 0
        else at3 (cand_val dx dt (heap s ! u s) (heap s ! u_prev s)) i j k)"
    using loop_body_result [OF wf pos fit] by blast
  then have z: "zero_faces n (heap s' ! u s')" by (simp add: zero_faces_def)
  have "wf_state n s'" using loop_body_wf [OF wf pos fit] r by auto
  then show ?thesis using r z by blast
qed

lemma loop_zero_faces:
  assumes wf: "wf_state n s" and pos: "0 < n" and fit: "powers_fit dx dt"
  shows "\<exists>s'. loop (Suc m) (int n) dx dt s = Inr s' \<and> zero_faces n (heap s' ! u s')"
proof -
  obtain sm where sm: "loop m (int n) dx dt s = Inr sm" and wfm: "wf_state n sm"
    using loop_ok [OF wf pos fit, of m] by blast
  obtain s' where "loop_body (int n) dx dt sm = Inr s'" "zero_faces n (heap s' ! u s')"
    using loop_body_zero_faces [OF wfm pos fit] by blast
  then show ?thesis unfolding loop_Suc_end by (simp add: sm)
qed

lemma loop_returns_zero_faces:
  assumes wf: "wf_state n s" and pos: "0 < n"
    and r: "loop (Suc m) (int n) dx dt s = Inr s'"
  shows "zero_faces n (heap s' ! u s')"
proof (cases "powers_fit dx dt")
  case True
  then show ?thesis using loop_zero_faces [OF wf pos True, of m] r by auto
next
  case False
  then have "loop_body (int n) dx dt s = Inl OverflowError" by (rule loop_body_overflow)
  then have "loop (Suc m) (int n) dx dt s = Inl OverflowError" by simp
  then show ?thesis using r by simp
qed

text \<open>
  Claim C3. On an \<open>N \<times> N \<times> N\<close> field (\<open>N \<ge> 1\<close>) the boundary assignments succeed and
  leave exactly 0 at every point with an index 0 or \<open>N - 1\<close> along any axis. So the
  field \<^verbatim>\<open>u\<close> holds after any positive number of iterations, from any starting
  fields, is 0 on its six faces, whenever the iterations return; they do return while
  \<^verbatim>\<open>dx**2\<close> and \<^verbatim>\<open>dt**4\<close> are floats (\<open>|dx| < 2^512\<close>, \<open>|dt| < 2^256\<close>). In particular the
  faces are 0 after one iteration from the sine-product initial condition on the grid of
  \<^verbatim>\<open>np.linspace(0, L, N)\<close>, whatever values \<^verbatim>\<open>np.sin\<close> returns.
\<close>

theorem boundary_faces_zero:
  assumes "0 < N"
  shows "(\<forall>a. shape3 N a \<longrightarrow>
           (\<exists>b. apply_boundary a = Inr b \<and> shape3 N b \<and> zero_faces N b))
    \<and> (\<forall>s m dx dt s'. wf_state N s \<and> loop (Suc m) (int N) dx dt s = Inr s' \<longrightarrow>
           zero_faces N (heap s' ! u s'))
    \<and> (\<forall>s m dx dt. wf_state N s \<and> \<bar>dx\<bar> < 2 ^ 512 \<and> \<bar>dt\<bar> < 2 ^ 256 \<longrightarrow>
           (\<exists>s'. loop (Suc m) (int N) dx dt s = Inr s' \<and> zero_faces N (heap s' ! u s')))
    \<and> (\<forall>sin_pi L x dx dt.
           linspace 0 L (int N) = Inr x \<and> \<bar>dx\<bar> < 2 ^ 512 \<and> \<bar>dt\<bar> < 2 ^ 256 \<longrightarrow>
           (\<exists>s'. loop 1 (int N) dx dt (init_state (initial_condition sin_pi x x x)) = Inr s' \<and>
                 zero_faces N (heap s' ! u s')))"
proof (intro conjI allI impI)
  fix a assume "shape3 N a"
  then show "\<exists>b. apply_boundary a = Inr b \<and> shape3 N b \<and> zero_faces N b"
    using apply_boundary_ok [OF _ assms, of a] by (auto simp: zero_faces_def)
next
  fix s m dx dt s'
  assume "wf_state N s \<and> loop (Suc m) (int N) dx dt s = Inr s'"
  then show "zero_faces N (heap s' ! u s')"
    using loop_returns_zero_faces [OF _ assms] by blast
next
  fix s m and dx dt :: real
  assume a: "wf_state N s \<and> \<bar>dx\<bar> < 2 ^ 512 \<and> \<bar>dt\<bar> < 2 ^ 256"
  then have fit: "powers_fit dx dt" by (simp add: powers_fit_def)
  show "\<exists>s'. loop (Suc m) (int N) dx dt s = Inr s' \<and> zero_faces N (heap s' ! u s')"
    using a by (intro loop_zero_faces [OF _ assms fit]) simp
next
  fix sin_pi L x and dx dt :: real
  assume a: "linspace 0 L (int N) = Inr x \<and> \<bar>dx\<bar> < 2 ^ 512 \<and> \<bar>dt\<bar> < 2 ^ 256"
  then have x: "linspace 0 L (int N) = Inr x" and fit: "powers_fit dx dt"
    by (simp_all add: powers_fit_def)
  have len: "length x = N" using linspace_length [of "int N" 0 L] x by simp
  have "wf_state N (init_state (initial_condition sin_pi x x x))"
    by (rule wf_init_state [OF shape3_initial_condition [OF len len len]])
  then show "\<exists>s'. loop 1 (int N) dx dt (init_state (initial_condition sin_pi x x x)) = Inr s' \<and>
                 zero_faces N (heap s' ! u s')"
    using loop_zero_faces [OF _ assms fit, of _ 0] by simp
qed

theorem boundary_faces_zero_witness:
  "(0::nat) < 2 \<and> shape3 2 [[[1, 2], [3, 4]], [[5, 6], [7, 8]]] \<and>
   apply_boundary [[[1, 2], [3, 4]], [[5, 6], [7, 8]]] = Inr [[[0, 0], [0, 0]], [[0, 0], [0, 0]]]
   \<and> zero_faces 2 [[[0, 0], [0, 0]], [[0, 0], [0, 0]]]
   \<and> wf_state 2 (init_state [[[1, 2], [3, 4]], [[5, 6], [7, 8]]])
   \<and> \<bar>1::real\<bar> < 2 ^ 512 \<and> \<bar>1::real\<bar> < 2 ^ 256
   \<and> (\<exists>s'. loop (Suc 0) 2 1 1 (init_state [[[1, 2], [3, 4]], [[5, 6], [7, 8]]]) = Inr s'
          \<and> zero_faces 2 (heap s' ! u s'))"
proof -
  have p: "(0::nat) < 2" by simp
  have h: "shape3 2 [[[1, 2], [3, 4]], [[5, 6], [7, 8]]]" by (simp add: shape3_def)
  have e: "apply_boundary [[[1, 2], [3, 4]], [[5, 6], [7, 8]]] =
           Inr [[[0, 0], [0, 0]], [[0, 0], [0, 0]]]"
    by (simp add: apply_boundary_def assign0_def assign1_def assign2_def norm_index_def
        dim0_def dim1_def dim2_def Let_def)
  have w: "wf_state 2 (init_state [[[1, 2], [3, 4]], [[5, 6], [7, 8]]])" by (rule wf_init_state [OF h])
  have b1: "\<bar>1::real\<bar> < 2 ^ 512" and b2: "\<bar>1::real\<bar> < 2 ^ 256" by simp_all
  note t = boundary_faces_zero [OF p]
  have z: "zero_faces 2 [[[0, 0], [0, 0]], [[0, 0], [0, 0]]]"
    using t h e by auto
  have "\<exists>s'. loop (Suc 0) (int 2) 1 1 (init_state [[[1, 2], [3, 4]], [[5, 6], [7, 8]]]) = Inr s'
          \<and> zero_faces 2 (heap s' ! u s')"
    using t w b1 b2 by blast
  then show ?thesis using p h e z w b1 b2 by simp
qed




section \<open>The frames: claim C5\<close>

lemma slice2_shape:
  assumes "shape3 n a"
  shows "length (slice2 a k) = n" and "\<forall>row \<in> set (slice2 a k). length row = n"
  using assms by (auto simp: slice2_def shape3_def)

lemma loop_addresses:
  assumes wf: "wf_state n s" and pos: "0 < n" and fit: "powers_fit dx dt"
  shows "\<exists>s'. loop m (int n) dx dt s = Inr s' \<and>
    length (heap s') = length (heap s) + 3 * m \<and>
    frames s' = frames s @ map (\<lambda>i. (length (heap s) + 3 * i + 2, n div 2)) [0..<m] \<and>
    (0 < m \<longrightarrow> u s' = length (heap s) + 3 * m - 1)"
proof (induction m)
  case 0
  show ?case by simp
next
  case (Suc m)
  then obtain sm where sm: "loop m (int n) dx dt s = Inr sm"
    and hl: "length (heap sm) = length (heap s) + 3 * m"
    and fr: "frames sm = frames s @ map (\<lambda>i. (length (heap s) + 3 * i + 2, n div 2)) [0..<m]"
    by blast
  obtain t where "loop m (int n) dx dt s = Inr t" and "wf_state n t"
    using loop_ok [OF wf pos fit, of m] by blast
  then have wfm: "wf_state n sm" using sm by simp
  obtain b where
    body: "loop_body (int n) dx dt sm =
      Inr (sm\<lparr>heap := heap sm @ [b, heap sm ! u sm, b],
              u := length (heap sm) + 2, u_prev := length (heap sm) + 1,
              u_next := length (heap sm),
              frames := frames sm @ [(length (heap sm) + 2, n div 2)]\<rparr>)"
    using loop_body_ok [OF wfm pos fit] by blast
  show ?case
    unfolding loop_Suc_end by (simp add: sm body hl fr)
qed

text \<open>
  Claim C5 fails in one part: a frame is not an array of its own. The script with
  \<open>L = 1\<close>, \<open>N = 3\<close>, \<open>T = 2\<close>, \<open>dt = 1\<close> (the quotient \<open>2.0 / 1.0\<close> is \<open>2.0\<close>) runs two
  steps and ends with 11 buffers, the 5 of the initialisation and 3 for each step
  (\<^verbatim>\<open>u_next\<close> and the two copies), none for a frame. Its frames are the views at index
  1 of buffers 7 and 10: buffer 10 is the one \<^verbatim>\<open>u\<close> names at the end, buffer 7 the one
  \<^verbatim>\<open>u\<close> names after the first step (the run with \<open>T = 1\<close>).
\<close>

theorem frame_is_view_counterexample:
  "\<not> isl (run sin_pi_grid3 (Finite 2) 1 3 2 1 1)
   \<and> length (heap (projr (run sin_pi_grid3 (Finite 2) 1 3 2 1 1))) = 11
   \<and> frames (projr (run sin_pi_grid3 (Finite 2) 1 3 2 1 1)) = [(7, 1), (10, 1)]
   \<and> u (projr (run sin_pi_grid3 (Finite 2) 1 3 2 1 1)) = 10
   \<and> \<not> isl (run sin_pi_grid3 (Finite 1) 1 3 1 1 1)
   \<and> u (projr (run sin_pi_grid3 (Finite 1) 1 3 1 1 1)) = 7"
proof -
  have two: "py_int (Finite 2) = Inr 2" and one: "py_int (Finite 1) = Inr 1"
    by (simp_all add: py_int_def)
  obtain x where
    wf: "wf_state (nat 3) (init_state (initial_condition sin_pi_grid3 x x x))"
    and r2: "run sin_pi_grid3 (Finite 2) 1 3 2 1 1 =
      loop (nat 2) 3 (1 / real_of_int (3 - 1)) 1
        (init_state (initial_condition sin_pi_grid3 x x x))"
    using run_is_loop [OF _ two, where dt = 1 and N = 3 and sin_pi = sin_pi_grid3 and L = 1
        and T = 2 and alpha = 1] by auto
  obtain y where
    wfy: "wf_state (nat 3) (init_state (initial_condition sin_pi_grid3 y y y))"
    and r1: "run sin_pi_grid3 (Finite 1) 1 3 1 1 1 =
      loop (nat 1) 3 (1 / real_of_int (3 - 1)) 1
        (init_state (initial_condition sin_pi_grid3 y y y))"
    using run_is_loop [OF _ one, where dt = 1 and N = 3 and sin_pi = sin_pi_grid3 and L = 1
        and T = 1 and alpha = 1] by auto
  have init: "length (heap (init_state a)) = 5" "frames (init_state a) = []" for a
    by (simp_all add: init_state_def)
  have fit: "powers_fit (1 / real_of_int (3 - 1)) 1" by (simp add: powers_fit_def)
  obtain s2 where s2: "loop 2 (int 3) (1 / real_of_int (3 - 1)) 1
        (init_state (initial_condition sin_pi_grid3 x x x)) = Inr s2"
    and "length (heap s2) = 5 + 3 * 2"
    and "frames s2 = map (\<lambda>i. (5 + 3 * i + 2, 3 div 2)) [0..<2]"
    and "u s2 = 5 + 3 * 2 - 1"
    using loop_addresses [where n = 3 and m = 2
        and s = "init_state (initial_condition sin_pi_grid3 x x x)"
        and dx = "1 / real_of_int (3 - 1)" and dt = 1] wf fit
    by (auto simp: init)
  moreover have "[0..<2] = [0, 1::nat]" by (simp add: upt_rec)
  ultimately have a: "run sin_pi_grid3 (Finite 2) 1 3 2 1 1 = Inr s2"
    and b: "length (heap s2) = 11" "frames s2 = [(7, 1), (10, 1)]" "u s2 = 10"
    by (simp_all add: r2)
  obtain s1 where s1: "loop 1 (int 3) (1 / real_of_int (3 - 1)) 1
        (init_state (initial_condition sin_pi_grid3 y y y)) = Inr s1"
    and "u s1 = 5 + 3 * 1 - 1"
    using loop_addresses [where n = 3 and m = 1
        and s = "init_state (initial_condition sin_pi_grid3 y y y)"
        and dx = "1 / real_of_int (3 - 1)" and dt = 1] wfy fit
    by (auto simp: init)
  then have c: "run sin_pi_grid3 (Finite 1) 1 3 1 1 1 = Inr s1" and d: "u s1 = 7"
    by (simp_all add: r1)
  show ?thesis unfolding a c using b d by simp
qed

text \<open>
  Claim C5, amended. From a state with no frames, with \<open>|dx| < 2^512\<close> and
  \<open>|dt| < 2^256\<close>, \<open>m\<close> iterations succeed and leave exactly \<open>m\<close> frames. Frame \<open>i\<close> is a view, at index \<open>N div 2\<close> of axis 2, of the buffer
  \<^verbatim>\<open>u\<close> names after iteration \<open>i + 1\<close>, the copy that iteration made; no later iteration
  stores into that buffer, so read at the end the frame is still the \<open>N \<times> N\<close> mid-plane
  of the field after iteration \<open>i + 1\<close>. When \<^verbatim>\<open>int(T / dt)\<close> gives \<open>steps\<close> (\<open>dt \<noteq> 0\<close>,
  \<open>N \<ge> 2\<close>, \<open>N - 1\<close> within the floats) the script runs the loop \<open>max(steps, 0)\<close> times
  from such a state.
\<close>

theorem frames_view_the_step_copies:
  assumes "0 < N"
  shows "(\<forall>s m dx dt.
      wf_state N s \<and> frames s = [] \<and> \<bar>dx\<bar> < 2 ^ 512 \<and> \<bar>dt\<bar> < 2 ^ 256 \<longrightarrow>
      (\<exists>s'. loop m (int N) dx dt s = Inr s' \<and> length (frames s') = m \<and>
        (\<forall>i<m. \<exists>si. loop (Suc i) (int N) dx dt s = Inr si \<and>
            frames s' ! i = (u si, N div 2) \<and>
            heap s' ! u si = heap si ! u si \<and>
            read_frame (heap s') (frames s' ! i) = slice2 (heap si ! u si) (N div 2) \<and>
            length (read_frame (heap s') (frames s' ! i)) = N \<and>
            (\<forall>row \<in> set (read_frame (heap s') (frames s' ! i)). length row = N))))
    \<and> (\<forall>sin_pi q steps L T dt alpha.
        dt \<noteq> 0 \<and> py_int q = Inr steps \<and> 2 \<le> N \<and> int N - 1 < 2 ^ 1024 - 2 ^ 970 \<longrightarrow>
      (\<exists>x. linspace 0 L (int N) = Inr x \<and>
        wf_state N (init_state (initial_condition sin_pi x x x)) \<and>
        frames (init_state (initial_condition sin_pi x x x)) = [] \<and>
        run sin_pi q L (int N) T dt alpha =
          loop (nat steps) (int N) (L / real_of_int (int N - 1)) dt
            (init_state (initial_condition sin_pi x x x))))"
proof (intro conjI allI impI)
  fix s m and dx dt :: real
  assume a: "wf_state N s \<and> frames s = [] \<and> \<bar>dx\<bar> < 2 ^ 512 \<and> \<bar>dt\<bar> < 2 ^ 256"
  then have wf: "wf_state N s" and nofr: "frames s = []" and fit: "powers_fit dx dt"
    by (simp_all add: powers_fit_def)
  obtain s' where s': "loop m (int N) dx dt s = Inr s'"
    and len: "length (frames s') = length (frames s) + m"
    using loop_ok [OF wf assms fit, of m] by blast
  have each: "\<exists>si. loop (Suc i) (int N) dx dt s = Inr si \<and>
        frames s' ! i = (u si, N div 2) \<and>
        heap s' ! u si = heap si ! u si \<and>
        read_frame (heap s') (frames s' ! i) = slice2 (heap si ! u si) (N div 2) \<and>
        length (read_frame (heap s') (frames s' ! i)) = N \<and>
        (\<forall>row \<in> set (read_frame (heap s') (frames s' ! i)). length row = N)"
    if i: "i < m" for i
  proof -
    obtain si t where si: "loop (Suc i) (int N) dx dt s = Inr si"
      and t: "loop m (int N) dx dt s = Inr t"
      and fr: "frames t ! (length (frames s) + i) = (u si, N div 2)"
      and hp: "heap t ! u si = heap si ! u si"
      using loop_frames [OF wf assms fit i] by blast
    have ts: "t = s'" using t s' by simp
    obtain si' where "loop (Suc i) (int N) dx dt s = Inr si'" "wf_state N si'"
      using loop_ok [OF wf assms fit, of "Suc i"] by blast
    then have "wf_state N si" using si by simp
    then have sh: "shape3 N (heap si ! u si)" by (simp add: wf_state_def)
    have f: "frames s' ! i = (u si, N div 2)" using fr ts nofr by simp
    have r: "read_frame (heap s') (frames s' ! i) = slice2 (heap si ! u si) (N div 2)"
      using hp ts by (simp add: f read_frame_def)
    show ?thesis
      using si f hp ts r slice2_shape [OF sh, of "N div 2"] by auto
  qed
  show "\<exists>s'. loop m (int N) dx dt s = Inr s' \<and> length (frames s') = m \<and>
        (\<forall>i<m. \<exists>si. loop (Suc i) (int N) dx dt s = Inr si \<and>
            frames s' ! i = (u si, N div 2) \<and>
            heap s' ! u si = heap si ! u si \<and>
            read_frame (heap s') (frames s' ! i) = slice2 (heap si ! u si) (N div 2) \<and>
            length (read_frame (heap s') (frames s' ! i)) = N \<and>
            (\<forall>row \<in> set (read_frame (heap s') (frames s' ! i)). length row = N))"
    using s' len nofr each by auto
next
  fix sin_pi :: "real \<Rightarrow> real" and q steps and L T dt alpha :: real
  assume "dt \<noteq> 0 \<and> py_int q = Inr steps \<and> 2 \<le> N \<and> int N - 1 < 2 ^ 1024 - 2 ^ 970"
  then have "dt \<noteq> 0" and "py_int q = Inr steps" and "2 \<le> int N"
    and "int N - 1 < 2 ^ 1024 - 2 ^ 970" by simp_all
  then show "\<exists>x. linspace 0 L (int N) = Inr x \<and>
        wf_state N (init_state (initial_condition sin_pi x x x)) \<and>
        frames (init_state (initial_condition sin_pi x x x)) = [] \<and>
        run sin_pi q L (int N) T dt alpha =
          loop (nat steps) (int N) (L / real_of_int (int N - 1)) dt
            (init_state (initial_condition sin_pi x x x))"
    using run_is_loop [where dt = dt and q = q and steps = steps and N = "int N" and L = L
        and sin_pi = sin_pi and T = T and alpha = alpha] by simp
qed

theorem frames_view_the_step_copies_witness:
  "(0::nat) < 3
   \<and> wf_state 3 (init_state [[[0, 0, 0], [0, 0, 0], [0, 0, 0]],
                           [[0, 0, 0], [0, 1, 0], [0, 0, 0]],
                           [[0, 0, 0], [0, 0, 0], [0, 0, 0]]])
   \<and> frames (init_state [[[0, 0, 0], [0, 0, 0], [0, 0, 0]],
                           [[0, 0, 0], [0, 1, 0], [0, 0, 0]],
                           [[0, 0, 0], [0, 0, 0], [0, 0, 0]]]) = []
   \<and> \<bar>1::real\<bar> < 2 ^ 512 \<and> \<bar>1::real\<bar> < 2 ^ 256
   \<and> (\<exists>s'. loop 2 3 1 1 (init_state [[[0, 0, 0], [0, 0, 0], [0, 0, 0]],
                           [[0, 0, 0], [0, 1, 0], [0, 0, 0]],
                           [[0, 0, 0], [0, 0, 0], [0, 0, 0]]]) = Inr s' \<and> length (frames s') = 2 \<and>
         read_frame (heap s') (frames s' ! 0) = [[0, 0, 0], [0, - 47, 0], [0, 0, 0]])"
proof -
  let ?F = "[[[0, 0, 0], [0, 0, 0], [0, 0, 0]],
                           [[0, 0, 0], [0, 1, 0], [0, 0, 0]],
                           [[0, 0, 0], [0, 0, 0], [0, 0, 0]]] :: array3"
  have p: "(0::nat) < 3" by simp
  have h: "wf_state 3 (init_state ?F)"
    by (simp add: wf_state_def init_state_def shape3_def)
  have f: "frames (init_state ?F) = []" by (simp add: init_state_def)
  have c: "cand_val 1 1 ?F ?F =
      [[[0, - 2, 0], [- 2, 12, - 2], [0, - 2, 0]],
       [[- 2, 12, - 2], [12, - 47, 12], [- 2, 12, - 2]],
       [[0, - 2, 0], [- 2, 12, - 2], [0, - 2, 0]]]"
    by (simp add: cand_val_def candidate_def bih_val_def lap_val_def roll1_def add3_def sub3_def
        smul3_def sdiv3_def rotate_def eval_nat_numeral)
  have b: "apply_boundary
      [[[0, - 2, 0], [- 2, 12, - 2], [0, - 2, 0]],
       [[- 2, 12, - 2], [12, - 47, 12], [- 2, 12, - 2]],
       [[0, - 2, 0], [- 2, 12, - 2], [0, - 2, 0]]] =
      Inr [[[0, 0, 0], [0, 0, 0], [0, 0, 0]],
           [[0, 0, 0], [0, - 47, 0], [0, 0, 0]],
           [[0, 0, 0], [0, 0, 0], [0, 0, 0]]]"
    by (simp add: apply_boundary_def assign0_def assign1_def assign2_def norm_index_def
        dim0_def dim1_def dim2_def Let_def)
  obtain s1 where s1: "loop_body (int 3) 1 1 (init_state ?F) = Inr s1"
    and u1: "heap s1 ! u s1 =
      [[[0, 0, 0], [0, 0, 0], [0, 0, 0]],
       [[0, 0, 0], [0, - 47, 0], [0, 0, 0]],
       [[0, 0, 0], [0, 0, 0], [0, 0, 0]]]"
    using loop_body_result [OF h, of 1 1] by (auto simp: init_state_def c b powers_fit_def)
  have one: "loop (Suc 0) (int 3) 1 1 (init_state ?F) = Inr s1"
    using s1 by simp
  have hyp: "wf_state 3 (init_state ?F) \<and> frames (init_state ?F) = [] \<and>
      \<bar>1::real\<bar> < 2 ^ 512 \<and> \<bar>1::real\<bar> < 2 ^ 256"
    using h f by simp
  note t = frames_view_the_step_copies [OF p, THEN conjunct1, rule_format,
        where s = "init_state ?F" and m = 2 and dx = 1 and dt = 1, OF hyp]
  obtain s' where s': "loop 2 (int 3) 1 1 (init_state ?F) = Inr s'"
    and len: "length (frames s') = 2"
    and each: "\<forall>i<2. \<exists>si. loop (Suc i) (int 3) 1 1 (init_state ?F) = Inr si \<and>
        read_frame (heap s') (frames s' ! i) = slice2 (heap si ! u si) (3 div 2)"
    using t by blast
  have "read_frame (heap s') (frames s' ! 0) = slice2 (heap s1 ! u s1) (3 div 2)"
    using each [rule_format, of 0] one by auto
  then have "read_frame (heap s') (frames s' ! 0) = [[0, 0, 0], [0, - 47, 0], [0, 0, 0]]"
    by (simp add: u1 slice2_def)
  then show ?thesis using h f s' len by auto
qed

section \<open>The grid: claim C8\<close>

text \<open>
  Claim C8. For \<open>L > 0\<close> and \<open>N \<ge> 2\<close>, \<^verbatim>\<open>np.linspace(0, L, N)\<close>, the coordinate array of
  each of the three axes, succeeds with exactly \<open>N\<close> strictly increasing values, the
  first 0, the last \<open>L\<close>, consecutive values \<open>L / (N - 1)\<close> apart, which is the \<open>dx\<close> the
  script computes (in exact arithmetic).
\<close>

theorem grid_uniform:
  assumes "0 < L" and "2 \<le> N"
  shows "\<exists>x. linspace 0 L N = Inr x \<and> length x = nat N \<and>
    x ! 0 = 0 \<and> x ! (nat N - 1) = L \<and> sorted_wrt (<) x \<and>
    (\<forall>i. Suc i < nat N \<longrightarrow> x ! Suc i - x ! i = L / real_of_int (N - 1)) \<and>
    py_div L (real_of_int (N - 1)) = Inr (L / real_of_int (N - 1))"
proof -
  obtain x where x: "linspace 0 L N = Inr x" and len: "length x = nat N"
    using linspace_length [of N 0 L] assms(2) by auto
  let ?dx = "L / real_of_int (N - 1)"
  have dpos: "0 < ?dx" using assms by simp
  have nth: "x ! i = real i * ?dx" if "i < nat N" for i
    using linspace_nth [OF assms(2) x that] by simp
  have first: "x ! 0 = 0" using nth [of 0] assms(2) by simp
  have last: "x ! (nat N - 1) = L"
    using linspace_ends(2) [OF _ x] assms(2) by simp
  have step: "x ! Suc i - x ! i = ?dx" if "Suc i < nat N" for i
    using nth [of i] nth [of "Suc i"] that by (simp add: algebra_simps add_divide_distrib)
  have incr: "sorted_wrt (<) x"
    unfolding sorted_wrt_iff_nth_less
  proof (intro allI impI)
    fix i j assume "i < j" "j < length x"
    then have "real i < real j" by simp
    then have "real i * ?dx < real j * ?dx" using dpos by (rule mult_strict_right_mono)
    then show "x ! i < x ! j"
      using nth [of i] nth [of j] \<open>i < j\<close> \<open>j < length x\<close> len by simp
  qed
  have dx: "py_div L (real_of_int (N - 1)) = Inr ?dx"
    using assms(2) by (simp add: py_div_def)
  show ?thesis using x len first last incr step dx by blast
qed

theorem grid_uniform_witness:
  "(0::real) < 1 \<and> (2::int) \<le> 3 \<and> linspace 0 1 3 = Inr [0, 1 / 2, 1] \<and>
   sorted_wrt (<) [0::real, 1 / 2, 1] \<and> py_div 1 (real_of_int (3 - 1)) = Inr (1 / 2)"
proof -
  have l: "(0::real) < 1" and n: "(2::int) \<le> 3" by simp_all
  have e: "linspace 0 1 3 = Inr [0, 1 / 2, 1]"
    by (simp add: linspace_def Let_def upt_rec [of 0] upt_rec [of "Suc 0"] upt_rec [of 2]
        eval_nat_numeral)
  show ?thesis
    using grid_uniform [OF l n] e by auto
qed

section \<open>Failures of the script: claim C6\<close>

lemma linspace_zero: "linspace a b 0 = Inr []"
  by (simp add: linspace_def)

lemma initial_condition_empty: "initial_condition sin_pi [] [] [] = []"
  by (simp add: initial_condition_def meshgrid_def mul3_def map3_def)

lemma loop_empty:
  assumes fit: "powers_fit dx dt"
  shows "loop (Suc m) N dx dt (init_state []) = Inl IndexError"
proof -
  have "loop_body N dx dt (init_state []) = Inl IndexError"
    by (rule loop_body_empty) (simp_all add: init_state_def shape3_def fit)
  then show ?thesis by simp
qed

lemma dx_fits:
  assumes "\<bar>L\<bar> < 2 ^ 512" and "d \<noteq> 0"
  shows "\<bar>L / real_of_int d\<bar> < 2 ^ 512"
proof -
  have "1 \<le> \<bar>d\<bar>" using assms(2) by simp
  then have "1 \<le> \<bar>real_of_int d\<bar>" by (metis of_int_1_le_iff of_int_abs)
  have one: "1 \<le> \<bar>real_of_int d\<bar>" by fact
  have "\<bar>L\<bar> * 1 \<le> \<bar>L\<bar> * \<bar>real_of_int d\<bar>"
    by (rule mult_left_mono [OF one]) simp
  then have "\<bar>L\<bar> / \<bar>real_of_int d\<bar> \<le> \<bar>L\<bar>"
    using one assms(2) by (simp add: divide_le_eq del: of_int_abs)
  then show ?thesis using assms(1) by (simp add: abs_divide del: of_int_abs)
qed

lemma run_steps_fail: "run sin_pi q L N T 0 alpha = Inl ZeroDivisionError"
  by (simp add: run_def py_truediv_def)

lemma run_int_fail:
  assumes "dt \<noteq> 0" and "py_int q = Inl e"
  shows "run sin_pi q L N T dt alpha = Inl e"
  using assms by (simp add: run_def py_truediv_def)

lemma run_dx_fail:
  assumes "dt \<noteq> 0" and "py_int q = Inr steps"
  shows "run sin_pi q L 1 T dt alpha = Inl ZeroDivisionError"
  using assms by (simp add: run_def py_truediv_def py_float_def py_div_def)

lemma run_linspace_fail:
  assumes "dt \<noteq> 0" and "py_int q = Inr steps" and "N < 0"
    and "\<bar>N - 1\<bar> < 2 ^ 1024 - 2 ^ 970"
  shows "run sin_pi q L N T dt alpha = Inl ValueError"
  using assms
  by (simp add: run_def py_truediv_def py_float_ok py_div_def linspace_negative)

lemma run_empty_grid:
  assumes "dt \<noteq> 0" and q: "py_int q = Inr steps"
    and bdt: "\<bar>dt\<bar> < 2 ^ 256" and bL: "\<bar>L\<bar> < 2 ^ 512"
  shows "run sin_pi q L 0 T dt alpha =
    (if 0 < steps then Inl IndexError else Inr (init_state []))"
proof -
  have d: "py_float (0 - 1) = Inr (real_of_int (0 - 1))"
    by (rule py_float_ok) simp
  have fit: "powers_fit (- L) dt" using bdt bL by (simp add: powers_fit_def)
  show ?thesis
  proof (cases "0 < steps")
    case True
    then obtain m where m: "nat steps = Suc m"
      by (cases "nat steps") auto
    show ?thesis
      using assms True d
      by (simp add: run_def py_truediv_def py_div_def linspace_zero initial_condition_empty
          m loop_empty [OF fit] del: loop.simps)
  next
    case False
    then show ?thesis
      using assms d
      by (simp add: run_def py_truediv_def py_div_def linspace_zero initial_condition_empty)
  qed
qed

lemma run_ok:
  assumes dt: "dt \<noteq> 0" and q: "py_int q = Inr steps"
    and N: "2 \<le> N" and fits: "N - 1 < 2 ^ 1024 - 2 ^ 970"
    and bdt: "\<bar>dt\<bar> < 2 ^ 256" and bL: "\<bar>L\<bar> < 2 ^ 512"
  shows "\<exists>s'. run sin_pi q L N T dt alpha = Inr s' \<and> length (frames s') = nat steps"
proof -
  obtain x where wf: "wf_state (nat N) (init_state (initial_condition sin_pi x x x))"
    and fr: "frames (init_state (initial_condition sin_pi x x x)) = []"
    and r: "run sin_pi q L N T dt alpha =
      loop (nat steps) N (L / real_of_int (N - 1)) dt
        (init_state (initial_condition sin_pi x x x))"
    using run_is_loop [OF dt q N fits, of L sin_pi T alpha] by blast
  have pos: "0 < nat N" using N by simp
  have "\<bar>L / real_of_int (N - 1)\<bar> < 2 ^ 512" using N by (intro dx_fits [OF bL]) simp
  then have fit: "powers_fit (L / real_of_int (N - 1)) dt"
    using bdt by (simp add: powers_fit_def)
  obtain s' where "loop (nat steps) (int (nat N)) (L / real_of_int (N - 1)) dt
      (init_state (initial_condition sin_pi x x x)) = Inr s'"
    and "length (frames s') =
      length (frames (init_state (initial_condition sin_pi x x x))) + nat steps"
    using loop_ok [OF wf pos fit] by blast
  then show ?thesis
    using N by (simp add: r fr)
qed

text \<open>
  Claim C6 fails: the script validates nothing and has no error of its own. Here
  \<open>N = 3\<close> and the quotients \<open>2.0 / 1.0\<close>, \<open>1.0 / -1.0\<close>, \<open>0.0 / 1.0\<close> are exact. With
  \<open>L = -1\<close> the script runs both of its two steps; with \<open>dt = -1\<close> (so \<open>steps = -1\<close>)
  and with \<open>T = 0\<close> (so \<open>steps = 0\<close>) it runs to the end of its loop with no frame. None
  of the three invalid configurations gives an error. With \<open>dt = 0\<close> the error is
  Python's \<^verbatim>\<open>ZeroDivisionError\<close>.
\<close>

theorem invalid_config_runs_counterexample:
  "\<not> isl (run sin_pi_grid3 (Finite 2) (- 1) 3 2 1 1)
   \<and> length (frames (projr (run sin_pi_grid3 (Finite 2) (- 1) 3 2 1 1))) = 2
   \<and> \<not> isl (run sin_pi_grid3 (Finite (- 1)) 1 3 1 (- 1) 1)
   \<and> frames (projr (run sin_pi_grid3 (Finite (- 1)) 1 3 1 (- 1) 1)) = []
   \<and> \<not> isl (run sin_pi_grid3 (Finite 0) 1 3 0 1 1)
   \<and> frames (projr (run sin_pi_grid3 (Finite 0) 1 3 0 1 1)) = []
   \<and> run sin_pi_grid3 (Finite 0) 1 3 0 0 1 = Inl ZeroDivisionError"
proof -
  have a: "\<exists>s'. run sin_pi_grid3 (Finite 2) (- 1) 3 2 1 1 = Inr s' \<and>
      length (frames s') = nat 2"
    by (rule run_ok) (simp_all add: py_int_def)
  have b: "\<exists>s'. run sin_pi_grid3 (Finite (- 1)) 1 3 1 (- 1) 1 = Inr s' \<and>
      length (frames s') = nat (- 1)"
    by (rule run_ok) (simp_all add: py_int_def ceiling_eq_iff)
  have c: "\<exists>s'. run sin_pi_grid3 (Finite 0) 1 3 0 1 1 = Inr s' \<and>
      length (frames s') = nat 0"
    by (rule run_ok) (simp_all add: py_int_def)
  have d: "run sin_pi_grid3 (Finite 0) 1 3 0 0 1 = Inl ZeroDivisionError"
    by (rule run_steps_fail)
  show ?thesis using a b c d by auto
qed

text \<open>
  Claim C6, amended. With \<open>dt = 0\<close>, and with \<open>N = 1\<close> once \<^verbatim>\<open>int(T / dt)\<close> has given
  \<open>steps\<close>, the script stops before any iteration with Python's
  \<^verbatim>\<open>ZeroDivisionError\<close>. A configuration with \<open>L \<le> 0\<close>, \<open>dt < 0\<close> or \<open>steps \<le> 0\<close> is
  not rejected: whenever \<open>dt \<noteq> 0\<close>, \<^verbatim>\<open>int(T / dt)\<close> gives \<open>steps\<close>, \<open>N \<ge> 2\<close>, \<open>N - 1\<close>
  is within the floats, \<open>|dt| < 2^256\<close> and \<open>|L| < 2^512\<close>, the script runs its loop
  \<open>max(steps, 0)\<close> times without error, whatever the signs of \<open>L\<close>, \<open>dt\<close> and \<open>steps\<close>.
\<close>

theorem invalid_config_is_not_validated:
  "(dt = 0 \<longrightarrow> run sin_pi q L N T dt alpha = Inl ZeroDivisionError)
   \<and> (dt \<noteq> 0 \<and> py_int q = Inr steps \<and> N = 1 \<longrightarrow>
        run sin_pi q L N T dt alpha = Inl ZeroDivisionError)
   \<and> (dt \<noteq> 0 \<and> py_int q = Inr steps \<and> 2 \<le> N \<and> N - 1 < 2 ^ 1024 - 2 ^ 970 \<and>
      \<bar>dt\<bar> < 2 ^ 256 \<and> \<bar>L\<bar> < 2 ^ 512 \<longrightarrow>
        (\<exists>s'. run sin_pi q L N T dt alpha = Inr s' \<and> length (frames s') = nat steps))"
proof (intro conjI impI)
  assume "dt = 0"
  then show "run sin_pi q L N T dt alpha = Inl ZeroDivisionError"
    by (simp add: run_steps_fail)
next
  assume "dt \<noteq> 0 \<and> py_int q = Inr steps \<and> N = 1"
  then show "run sin_pi q L N T dt alpha = Inl ZeroDivisionError"
    using run_dx_fail [of dt q steps sin_pi L T alpha] by simp
next
  assume "dt \<noteq> 0 \<and> py_int q = Inr steps \<and> 2 \<le> N \<and> N - 1 < 2 ^ 1024 - 2 ^ 970 \<and>
      \<bar>dt\<bar> < 2 ^ 256 \<and> \<bar>L\<bar> < 2 ^ 512"
  then show "\<exists>s'. run sin_pi q L N T dt alpha = Inr s' \<and> length (frames s') = nat steps"
    using run_ok [where dt = dt and q = q and steps = steps and N = N and sin_pi = sin_pi
        and L = L and T = T and alpha = alpha] by simp
qed

theorem invalid_config_is_not_validated_witness:
  "run sin_pi_grid3 (Finite 0) 1 3 0 0 1 = Inl ZeroDivisionError
   \<and> py_int (Finite 2) = Inr 2
   \<and> run sin_pi_grid3 (Finite 2) 1 1 2 1 1 = Inl ZeroDivisionError
   \<and> (\<exists>s'. run sin_pi_grid3 (Finite 2) (- 1) 3 2 1 1 = Inr s' \<and> length (frames s') = 2)"
proof -
  have two: "py_int (Finite 2) = Inr 2" by (simp add: py_int_def)
  show ?thesis
    using two
      invalid_config_is_not_validated
        [where dt = 0 and sin_pi = sin_pi_grid3 and q = "Finite 0" and L = 1 and N = 3
          and T = 0 and alpha = 1 and steps = 0]
      invalid_config_is_not_validated
        [where dt = 1 and sin_pi = sin_pi_grid3 and q = "Finite 2" and L = 1 and N = 1
          and T = 2 and alpha = 1 and steps = 2]
      invalid_config_is_not_validated
        [where dt = 1 and sin_pi = sin_pi_grid3 and q = "Finite 2" and L = "- 1" and N = 3
          and T = 2 and alpha = 1 and steps = 2]
    by simp
qed

section \<open>The stencil in float64: claim C10\<close>

lemma fl_eval:
  assumes lo: "2 powi k \<le> \<bar>x\<bar>" and hi: "\<bar>x\<bar> < 2 powi (k + 1)"
  shows "fl x = of_int (round_half_even (x / 2 powi (k - 52))) * 2 powi (k - 52)"
proof -
  have pos: "0 < \<bar>x\<bar>"
  proof -
    have "(0::real) < 2 powi k" by simp
    then show ?thesis using lo by linarith
  qed
  then have nz: "x \<noteq> 0" by simp
  have "(2::real) powr real_of_int k \<le> \<bar>x\<bar>"
    using lo by (simp add: powr_real_of_int')
  moreover have "(2::real) powr real_of_int (k + 1) = 2 powi (k + 1)"
    by (rule powr_real_of_int') simp_all
  then have "\<bar>x\<bar> < (2::real) powr (real_of_int k + 1)"
    using hi by simp
  ultimately have "\<lfloor>log 2 \<bar>x\<bar>\<rfloor> = k"
    using floor_log_eq_powr_iff [of "\<bar>x\<bar>" 2 k] pos by simp
  then show ?thesis using nz by (simp add: fl_def Let_def)
qed

lemma fl_zero: "fl 0 = 0"
  by (simp add: fl_def)

lemma fl_small:
  "fl 1 = 1" "fl 2 = 2" "fl 3 = 3" "fl 4 = 4" "fl 5 = 5" "fl 6 = 6"
  by (simp_all add: fl_eval [where k = 0] fl_eval [where k = 1] fl_eval [where k = 2]
      round_half_even_def Let_def)

lemma fl_big:
  "fl 54043195528445952 = 54043195528445952"
  "fl (- 54043195528445946) = - 54043195528445944"
  "fl (- 54043195528445944) = - 54043195528445944"
  "fl 18014398509481988 = 18014398509481988"
  "fl 18014398509481986 = 18014398509481984"
  "fl 18014398509481985 = 18014398509481984"
  "fl 18014398509481984 = 18014398509481984"
  "fl 18014398509481982 = 18014398509481982"
  "fl 18014398509481978 = 18014398509481978"
  "fl 9007199254740996 = 9007199254740996"
  "fl 9007199254740994 = 9007199254740994"
  by (simp_all add: fl_eval [where k = 53] fl_eval [where k = 54] fl_eval [where k = 55]
      round_half_even_def Let_def)

text \<open>
  Claim C10 fails in float64. On the field with \<open>2\<^sup>5\<^sup>3\<close> at \<open>(0, 0, 0)\<close> and 1 elsewhere
  (\<open>N = 2\<close>, \<open>dx = 1\<close>), \<^verbatim>\<open>laplacian\<close> with every operation rounded gives the entries
  below: \<open>6 - 6\<cdot>2\<^sup>5\<^sup>3\<close> rounds to \<^verbatim>\<open>-54043195528445944\<close>, and \<open>2\<^sup>5\<^sup>4 + 1\<close> and
  \<open>2\<^sup>5\<^sup>4 + 2\<close> round to \<open>2\<^sup>5\<^sup>4\<close>. They sum to \<open>-6\<close>, not 0 (added in float64 in array
  order they give \<^verbatim>\<open>-4.0\<close>). The exact stencil sums to 0 on the same field.
\<close>

theorem float64_sum_counterexample:
  "laplacian_f64 1 [[[9007199254740992, 1], [1, 1]], [[1, 1], [1, 1]]] =
     [[[- 54043195528445944, 18014398509481982], [18014398509481978, 0]],
      [[18014398509481978, 0], [0, 0]]]
   \<and> sum3 [[[- 54043195528445944, 18014398509481982], [18014398509481978, 0]],
      [[18014398509481978, 0], [0, 0]]] = - 6
   \<and> \<not> isl (laplacian 1 [[[9007199254740992, 1], [1, 1]], [[1, 1], [1, 1]]])
   \<and> sum3 (projr (laplacian 1 [[[9007199254740992, 1], [1, 1]], [[1, 1], [1, 1]]])) = 0"
proof -
  have a: "laplacian_f64 1 [[[9007199254740992, 1], [1, 1]], [[1, 1], [1, 1]]] =
     [[[- 54043195528445944, 18014398509481982], [18014398509481978, 0]],
      [[18014398509481978, 0], [0, 0]]]"
    by (simp add: laplacian_f64_def roll1_def add3_f64_def sub3_f64_def smul3_f64_def
        sdiv3_f64_def rotate_def eval_nat_numeral fl_zero fl_small fl_big)
  have b: "sum3 [[[- 54043195528445944, 18014398509481982], [18014398509481978, 0]],
      [[18014398509481978, 0], [0, 0]]] = - 6"
    by (simp add: sum3_def)
  have c: "sum3 (lap_val 1 [[[9007199254740992, 1], [1, 1]], [[1, 1], [1, 1]]]) = 0"
    by (rule sum3_laplacian [where n = 2]) (simp add: shape3_def)
  have d: "laplacian 1 [[[9007199254740992, 1], [1, 1]], [[1, 1], [1, 1]]] =
      Inr (lap_val 1 [[[9007199254740992, 1], [1, 1]], [[1, 1], [1, 1]]])"
    by (rule laplacian_fits) simp
  show ?thesis unfolding d using a b c by simp
qed

text \<open>
  Claim C10, amended. In exact arithmetic (\<open>dx \<noteq> 0\<close>, \<^verbatim>\<open>dx**2\<close> a float) the entries of
  the array \<^verbatim>\<open>laplacian\<close> returns on an \<open>N \<times> N \<times> N\<close> field sum to zero: each
  of the six rolled copies is a permutation of the field and has its total, so the six
  totals cancel the \<open>6 \<cdot> f\<close> term. In float64 every operation is rounded and the sum of
  the computed entries need not be 0.
\<close>

theorem laplacian_sum_zero:
  assumes "shape3 N f" and "dx \<noteq> 0" and "\<bar>dx\<bar> < 2 ^ 512"
  shows "\<exists>g. laplacian dx f = Inr g \<and> shape3 N g \<and> sum3 g = 0"
  using sum3_laplacian [OF assms(1), of dx] shape3_laplacian [OF assms(1), of dx]
  by (simp add: laplacian_fits [OF assms(3)])

theorem laplacian_sum_zero_witness:
  "shape3 2 [[[1, 2], [3, 4]], [[5, 6], [7, 8]]] \<and> (1::real) \<noteq> 0 \<and> \<bar>1::real\<bar> < 2 ^ 512 \<and>
   (\<exists>g. laplacian 1 [[[1, 2], [3, 4]], [[5, 6], [7, 8]]] = Inr g \<and> sum3 g = 0)"
proof -
  have h: "shape3 2 [[[1, 2], [3, 4]], [[5, 6], [7, 8]]]" by (simp add: shape3_def)
  have d: "(1::real) \<noteq> 0" by simp
  have b: "\<bar>1::real\<bar> < 2 ^ 512" by simp
  show ?thesis using h d b laplacian_sum_zero [OF h d b] by blast
qed

end
